theory Spec2Isabelle
  imports Main
begin

section \<open>Garden of Tasks: the task cache and its synchronisation\<close>

text \<open>
  A shallow embedding of the data acquisition code of the application: the two storage
  services (\<^verbatim>\<open>services/taskStorage.ts\<close>, \<^verbatim>\<open>services/tokenStorage.ts\<close>), the
  fetch, merge and error handling functions of \<^verbatim>\<open>App.tsx\<close>, and the connect
  handler and the mount effect of \<^verbatim>\<open>components/AsanaConnect.tsx\<close>.

  Conventions of the embedding.
  \<^item> JavaScript strings are \<^typ>\<open>string\<close>; an ISO-8601 timestamp string (the result of
    \<^verbatim>\<open>toISOString\<close>) is represented by the instant it denotes, in milliseconds
    since the epoch, as an \<^typ>\<open>int\<close>, like the numbers of \<^verbatim>\<open>Date.now()\<close>.
  \<^item> A property that may be missing (\<^verbatim>\<open>undefined\<close> or \<^verbatim>\<open>null\<close>) has an
    \<^typ>\<open>'a option\<close>; the truthiness tests of the source are written out.
  \<^item> An \<^verbatim>\<open>async\<close> function is first given as it runs from its call to its end
    with no other handler in between; the functions of the background refresh are given
    a second time, with the handlers that run while a request is awaited. What the
    network answers, how long it takes and what \<^verbatim>\<open>Math.random\<close> returns are read
    from an environment.
  \<^item> The clock advances while a request is awaited, by the time the answer takes, and
    stands still in between: two readings of \<^verbatim>\<open>new Date()\<close> with no
    \<^verbatim>\<open>await\<close> between them agree.
  \<^item> The pagination loops have no bound in the source. They take the number of pages they
    may ask for, and a function that contains one returns \<^term>\<open>None\<close> when that number
    does not suffice.
\<close>

subsection \<open>Task records\<close>

text \<open>
  Tasks are untyped objects in the source. The record has the properties the code reads
  or writes: \<^verbatim>\<open>gid\<close>, \<^verbatim>\<open>name\<close>, \<^verbatim>\<open>completed\<close>, \<^verbatim>\<open>completed_at\<close> of
  the records of the remote source, and \<^verbatim>\<open>id\<close>, \<^verbatim>\<open>resource_type\<close> of the
  synthetic records.
\<close>

record task =
  gid :: "string option"
  id' :: "string option"
  name :: string
  completed_at :: "int option"
  resource_type :: "string option"
  completed :: bool

text \<open>\<^verbatim>\<open>if (taskId)\<close> on a string that may be missing: present and not empty.\<close>

fun truthy :: "string option \<Rightarrow> bool" where
  "truthy None = False"
| "truthy (Some s) = (s \<noteq> [])"

subsection \<open>The JavaScript \<^verbatim>\<open>Map\<close>\<close>

text \<open>
  A \<^verbatim>\<open>Map\<close> iterates in insertion order, and \<^verbatim>\<open>set\<close> on a key that is present
  replaces the value where the key stands. It is an association list with distinct keys,
  oldest entry first.
\<close>

type_synonym ('k, 'v) js_map = "('k \<times> 'v) list"

definition Map_new :: "('k, 'v) js_map" where
  "Map_new = []"

fun Map_set :: "'k \<Rightarrow> 'v \<Rightarrow> ('k, 'v) js_map \<Rightarrow> ('k, 'v) js_map" where
  "Map_set k v [] = [(k, v)]"
| "Map_set k v ((k', v') # m) = (if k' = k then (k, v) # m else (k', v') # Map_set k v m)"

definition Map_has :: "'k \<Rightarrow> ('k, 'v) js_map \<Rightarrow> bool" where
  "Map_has k m = (k \<in> set (map fst m))"

definition Map_values :: "('k, 'v) js_map \<Rightarrow> 'v list" where
  "Map_values m = map snd m"

subsection \<open>Merging by identifier\<close>

text \<open>
  \<^verbatim>\<open>autoRefreshTasks\<close> (lines 136-162) and \<^verbatim>\<open>fetchTasksForToken\<close> (lines 417-429
  and 486-506) run the same two loops: the map is seeded from the cached tasks, then
  every incoming task is set under its \<^verbatim>\<open>gid\<close>, and two counters tell new from
  updated records.
\<close>

definition seed_task :: "task \<Rightarrow> (string, task) js_map \<Rightarrow> (string, task) js_map" where
  "seed_task t taskMap =
     (case gid t of
        None \<Rightarrow> taskMap
      | Some taskId \<Rightarrow> if taskId = [] then taskMap else Map_set taskId t taskMap)"

definition seedTaskMap :: "task list \<Rightarrow> (string, task) js_map" where
  "seedTaskMap existingTasks = fold seed_task existingTasks Map_new"

definition merge_task ::
  "task \<Rightarrow> (string, task) js_map \<times> nat \<times> nat \<Rightarrow> (string, task) js_map \<times> nat \<times> nat" where
  "merge_task t acc =
     (case acc of (taskMap, newCount, updatedCount) \<Rightarrow>
        (case gid t of
           None \<Rightarrow> acc
         | Some taskId \<Rightarrow>
             if taskId = [] then acc
             else if Map_has taskId taskMap
               then (Map_set taskId t taskMap, newCount, updatedCount + 1)
               else (Map_set taskId t taskMap, newCount + 1, updatedCount)))"

definition mergeIntoMap ::
  "(string, task) js_map \<Rightarrow> task list \<Rightarrow> (string, task) js_map \<times> nat \<times> nat" where
  "mergeIntoMap taskMap newTasks = fold merge_task newTasks (taskMap, 0, 0)"

definition mergedTasks :: "task list \<Rightarrow> task list \<Rightarrow> task list" where
  "mergedTasks existingTasks newTasks =
     Map_values (fst (mergeIntoMap (seedTaskMap existingTasks) newTasks))"

subsection \<open>The merge as the specification words it\<close>

text \<open>
  The specification describes the result as an insertion-ordered map: the keys in the
  order of their first insertion, and for every key the record inserted last. The
  definitions below follow these words and are independent of the loops above.
\<close>

record ordered_map =
  insertion_order :: "string list"
  binding :: "string \<Rightarrow> task option"

definition om_empty :: ordered_map where
  "om_empty = \<lparr>insertion_order = [], binding = (\<lambda>k. None)\<rparr>"

definition om_insert :: "task \<Rightarrow> ordered_map \<Rightarrow> ordered_map" where
  "om_insert t m =
     (case gid t of
        None \<Rightarrow> m
      | Some k \<Rightarrow>
          if k = [] then m
          else \<lparr>insertion_order =
                  (case binding m k of
                     None \<Rightarrow> insertion_order m @ [k]
                   | Some old \<Rightarrow> insertion_order m),
                binding = (binding m)(k \<mapsto> t)\<rparr>)"

definition om_values :: "ordered_map \<Rightarrow> task list" where
  "om_values m = List.map_filter (binding m) (insertion_order m)"

definition merge_reference :: "task list \<Rightarrow> task list \<Rightarrow> task list" where
  "merge_reference cached incoming =
     om_values (fold om_insert incoming (fold om_insert cached om_empty))"

text \<open>The vocabulary of the consequences: the identifiers a sequence carries, in order,
  the first occurrences of a list, and the last record of a sequence under an identifier.\<close>

definition identifiers :: "task list \<Rightarrow> string list" where
  "identifiers ts = List.map_filter (\<lambda>t. if truthy (gid t) then gid t else None) ts"

fun first_occurrences :: "'a list \<Rightarrow> 'a list" where
  "first_occurrences [] = []"
| "first_occurrences (x # xs) = x # first_occurrences (filter (\<lambda>y. y \<noteq> x) xs)"

fun last_with :: "string \<Rightarrow> task list \<Rightarrow> task option" where
  "last_with k [] = None"
| "last_with k (t # ts) =
     (case last_with k ts of
        Some later \<Rightarrow> Some later
      | None \<Rightarrow> if gid t = Some k then Some t else None)"

definition well_formed_cache :: "task list \<Rightarrow> bool" where
  "well_formed_cache ts = (list_all (\<lambda>t. truthy (gid t)) ts \<and> distinct (map gid ts))"

subsection \<open>Staleness\<close>

text \<open>\<^verbatim>\<open>isCacheStale\<close> (lines 46-50); the reading of \<^verbatim>\<open>Date.now()\<close> is its first
  argument.\<close>

definition FIVE_MINUTES_MS :: int where
  "FIVE_MINUTES_MS = 5 * 60 * 1000"

definition isCacheStale :: "int \<Rightarrow> int \<Rightarrow> bool" where
  "isCacheStale current timestamp = (current - timestamp > FIVE_MINUTES_MS)"

subsection \<open>Invariants of the merge loops\<close>

text \<open>Every entry of the task map stands under the \<^verbatim>\<open>gid\<close> of its record.\<close>

definition keyed :: "(string, task) js_map \<Rightarrow> bool" where
  "keyed m = (\<forall>(k, t) \<in> set m. gid t = Some k \<and> k \<noteq> [])"

text \<open>The association list and the ordered map hold the same keys, in the same order,
  with the same records.\<close>

definition represents :: "(string, task) js_map \<Rightarrow> ordered_map \<Rightarrow> bool" where
  "represents m om =
     (insertion_order om = map fst m \<and> binding om = map_of m \<and> distinct (map fst m))"

definition entry :: "task \<Rightarrow> string \<times> task" where
  "entry t = (case gid t of Some k \<Rightarrow> (k, t) | None \<Rightarrow> ([], t))"

subsection \<open>Records of the remote source\<close>

text \<open>A record as the task listing returns it for the fields it is asked for
  (\<^verbatim>\<open>gid,name,completed,completed_at\<close>), used in the examples.\<close>

definition remote_task :: "string \<Rightarrow> string \<Rightarrow> int option \<Rightarrow> task" where
  "remote_task g n finished =
     \<lparr>gid = Some g, id' = None, name = n, completed_at = finished, resource_type = None,
      completed = (finished \<noteq> None)\<rparr>"

definition anonymous_task :: "string \<Rightarrow> task" where
  "anonymous_task n =
     \<lparr>gid = None, id' = None, name = n, completed_at = Some 0, resource_type = None,
      completed = True\<rparr>"

subsection \<open>Strings\<close>

text \<open>\<^verbatim>\<open>String.prototype.includes\<close>, \<^verbatim>\<open>String.prototype.trim\<close> on the white space
  among the characters of \<^typ>\<open>char\<close>, and the decimal numeral of a template
  literal \<^verbatim>\<open>${i}\<close>.\<close>

fun starts_with :: "string \<Rightarrow> string \<Rightarrow> bool" where
  "starts_with s [] = True"
| "starts_with [] (c # cs) = False"
| "starts_with (d # ds) (c # cs) = (d = c \<and> starts_with ds cs)"

fun includes' :: "string \<Rightarrow> string \<Rightarrow> bool" where
  "includes' [] sub = (sub = [])"
| "includes' (c # cs) sub = (starts_with (c # cs) sub \<or> includes' cs sub)"

definition white_space :: "char \<Rightarrow> bool" where
  "white_space c =
     (c \<in> set [CHR 0x09, CHR 0x0A, CHR 0x0B, CHR 0x0C, CHR 0x0D, CHR 0x20, CHR 0xA0])"

definition trim :: "string \<Rightarrow> string" where
  "trim s = rev (dropWhile white_space (rev (dropWhile white_space s)))"

definition digit :: "nat \<Rightarrow> char" where
  "digit d = ''0123456789'' ! d"

function decimal :: "nat \<Rightarrow> string" where
  "decimal n = (if n < 10 then [digit n] else decimal (n div 10) @ [digit (n mod 10)])"
  by pat_completeness auto
termination
  by (relation "measure (\<lambda>n. n)") auto

declare decimal.simps [simp del]

subsection \<open>Errors, promises and responses\<close>

text \<open>
  A thrown value is an \<^verbatim>\<open>Error\<close> object: its \<^verbatim>\<open>name\<close> and its
  \<^verbatim>\<open>message\<close>. An awaited promise is rejected with an error or fulfilled with a
  value; the promise an \<^verbatim>\<open>async\<close> function returns is rejected when the function
  throws.
\<close>

record js_error =
  error_name :: string
  message :: string

definition Error :: "string \<Rightarrow> js_error" where
  "Error msg = \<lparr>error_name = ''Error'', message = msg\<rparr>"

text \<open>\<^verbatim>\<open>"..." + error\<close> converts with \<^verbatim>\<open>Error.prototype.toString\<close>.\<close>

definition error_toString :: "js_error \<Rightarrow> string" where
  "error_toString e =
     (if error_name e = [] then message e
      else if message e = [] then error_name e
      else error_name e @ '': '' @ message e)"

datatype 'a promise = Rejected js_error | Fulfilled 'a

text \<open>
  A \<^verbatim>\<open>Response\<close>: the body as \<^verbatim>\<open>text()\<close> and as \<^verbatim>\<open>json()\<close> gives it. The
  JSON body has the shape the caller reads; a body of another shape makes the caller throw
  a \<^verbatim>\<open>TypeError\<close> where it reads it, which is \<open>body_json\<close> rejected.
\<close>

record 'j response =
  ok :: bool
  status :: nat
  body_text :: "string promise"
  body_json :: "'j promise"

text \<open>The \<^verbatim>\<open>data\<close> of the identity lookup: the user's \<^verbatim>\<open>gid\<close> and the
  \<^verbatim>\<open>gid\<close>s of the workspaces, as they go into the next request.\<close>

record user_data =
  user_gid :: string
  workspaces :: "string list option"

record next_page =
  offset :: "string option"

record tasks_page =
  data :: "task list"
  next_page :: "next_page option"

subsection \<open>Requests\<close>

record tasks_query =
  q_workspace :: string
  q_assignee :: string
  q_completed_since :: "int option"
  q_limit :: nat
  q_opt_fields :: string
  q_offset :: "string option"

text \<open>A request carries the bearer token of its \<^verbatim>\<open>Authorization\<close> header.\<close>

datatype request = GetUser string | GetTasks string tasks_query

subsection \<open>The environment\<close>

text \<open>
  What the code reads from outside: the answer to the \<open>k\<close>-th request of the session
  and the milliseconds it takes, the result of the \<open>k\<close>-th
  \<^verbatim>\<open>Math.floor(Math.random() * 30)\<close>, and the calendar arithmetic of \<^verbatim>\<open>Date\<close>
  (\<^verbatim>\<open>setDate(getDate() - n)\<close> and \<^verbatim>\<open>setFullYear(getFullYear() - 1)\<close>, which
  depend on the time zone and on leap years).
\<close>

record env =
  identity_lookup :: "nat \<Rightarrow> nat \<times> user_data option response promise"
  task_listing :: "nat \<Rightarrow> nat \<times> tasks_page response promise"
  random_days :: "nat \<Rightarrow> nat"
  days_before :: "nat \<Rightarrow> int \<Rightarrow> int"
  year_before :: "int \<Rightarrow> int"

subsection \<open>The state\<close>

text \<open>
  \<^verbatim>\<open>TaskCache\<close> is the value stored under \<^verbatim>\<open>garden_tasks_cached_tasks\<close>. The
  state holds the three items of \<^verbatim>\<open>localStorage\<close> the services use (and whether
  \<^verbatim>\<open>localStorage\<close> can be used at all: if not, every access throws and the services
  catch it), the state variables of the \<^verbatim>\<open>App\<close> component, the clock, the requests
  sent so far and the number of random numbers drawn so far. The items are held as the
  values the services wrote, not as their JSON text.
\<close>

record TaskCache =
  cache_tasks :: "task list"
  timestamp :: int

record world =
  storage_available :: bool
  asana_token_item :: "string option"
  cached_tasks_item :: "TaskCache option"
  last_sync_item :: "int option"
  token :: "string option"
  tasks :: "task list"
  loading :: bool
  error :: "string option"
  autoRefreshing :: bool
  now :: int
  sent :: "request list"
  randoms :: nat

text \<open>What persists across sessions.\<close>

definition persisted :: "world \<Rightarrow> string option \<times> TaskCache option \<times> int option" where
  "persisted w = (asana_token_item w, cached_tasks_item w, last_sync_item w)"

subsection \<open>\<^verbatim>\<open>services/tokenStorage.ts\<close>\<close>

definition saveToken :: "string \<Rightarrow> world \<Rightarrow> world" where
  "saveToken tok w = (if storage_available w then w\<lparr>asana_token_item := Some tok\<rparr> else w)"

definition getToken :: "world \<Rightarrow> string option" where
  "getToken w = (if storage_available w then asana_token_item w else None)"

definition clearToken :: "world \<Rightarrow> world" where
  "clearToken w = (if storage_available w then w\<lparr>asana_token_item := None\<rparr> else w)"

subsection \<open>\<^verbatim>\<open>services/taskStorage.ts\<close>\<close>

definition saveTasks :: "task list \<Rightarrow> world \<Rightarrow> world" where
  "saveTasks ts w =
     (if storage_available w
      then w\<lparr>cached_tasks_item := Some \<lparr>cache_tasks = ts, timestamp = now w\<rparr>\<rparr>
      else w)"

definition getTasks :: "world \<Rightarrow> task list" where
  "getTasks w =
     (if storage_available w
      then (case cached_tasks_item w of None \<Rightarrow> [] | Some cache \<Rightarrow> cache_tasks cache)
      else [])"

definition hasCachedTasks :: "world \<Rightarrow> bool" where
  "hasCachedTasks w = (storage_available w \<and> cached_tasks_item w \<noteq> None)"

definition getLastSyncTimestamp :: "world \<Rightarrow> int option" where
  "getLastSyncTimestamp w =
     (if storage_available w
      then (case cached_tasks_item w of None \<Rightarrow> None | Some cache \<Rightarrow> Some (timestamp cache))
      else None)"

definition saveLastSyncDate :: "int \<Rightarrow> world \<Rightarrow> world" where
  "saveLastSyncDate date w =
     (if storage_available w then w\<lparr>last_sync_item := Some date\<rparr> else w)"

definition getLastSyncDate :: "world \<Rightarrow> int option" where
  "getLastSyncDate w = (if storage_available w then last_sync_item w else None)"

definition clearTasks :: "world \<Rightarrow> world" where
  "clearTasks w =
     (if storage_available w then w\<lparr>cached_tasks_item := None, last_sync_item := None\<rparr> else w)"

subsection \<open>Synthetic tasks and dates\<close>

text \<open>\<^verbatim>\<open>generateMockTasks\<close> (lines 10-29): \<open>count\<close> records, numbered from 1, each
  with a day drawn at random.\<close>

definition taskTypes :: "string list" where
  "taskTypes =
     [''Research'', ''Design'', ''Development'', ''Testing'', ''Deployment'',
      ''Documentation'', ''Meeting'']"

definition mock_task :: "env \<Rightarrow> int \<Rightarrow> nat \<Rightarrow> nat \<Rightarrow> task" where
  "mock_task env today draw i =
     \<lparr>gid = None,
      id' = Some (''task-'' @ decimal i),
      name = taskTypes ! (i mod length taskTypes) @ '' Task '' @ decimal i,
      completed_at = Some (days_before env (random_days env draw) today),
      resource_type = Some ''task'',
      completed = True\<rparr>"

definition generateMockTasks :: "env \<Rightarrow> nat \<Rightarrow> world \<Rightarrow> task list \<times> world" where
  "generateMockTasks env count w =
     (map (\<lambda>i. mock_task env (now w) (randoms w + i - 1) i) [1..<count + 1],
      w\<lparr>randoms := randoms w + count\<rparr>)"

definition getThirtyDaysAgoISOString :: "env \<Rightarrow> world \<Rightarrow> int" where
  "getThirtyDaysAgoISOString env w = days_before env 30 (now w)"

definition getOneYearAgoISOString :: "env \<Rightarrow> world \<Rightarrow> int" where
  "getOneYearAgoISOString env w = year_before env (now w)"

subsection \<open>The network\<close>

text \<open>\<^verbatim>\<open>await fetch(...)\<close>: the request is recorded, the clock advances by the time
  the answer takes, and the answer is the environment's for this request of the session.\<close>

definition fetch_user ::
  "env \<Rightarrow> string \<Rightarrow> world \<Rightarrow> user_data option response promise \<times> world" where
  "fetch_user env accessToken w =
     (case identity_lookup env (length (sent w)) of
        (delay, answer) \<Rightarrow>
          (answer, w\<lparr>now := now w + int delay, sent := sent w @ [GetUser accessToken]\<rparr>))"

definition fetch_tasks ::
  "env \<Rightarrow> string \<Rightarrow> tasks_query \<Rightarrow> world \<Rightarrow> tasks_page response promise \<times> world" where
  "fetch_tasks env accessToken q w =
     (case task_listing env (length (sent w)) of
        (delay, answer) \<Rightarrow>
          (answer, w\<lparr>now := now w + int delay, sent := sent w @ [GetTasks accessToken q]\<rparr>))"

text \<open>\<^verbatim>\<open>fetchUserData\<close> (lines 182-199).\<close>

definition fetchUserData ::
  "env \<Rightarrow> string \<Rightarrow> world \<Rightarrow> user_data option promise \<times> world" where
  "fetchUserData env accessToken w =
     (case fetch_user env accessToken w of
        (Rejected e, w1) \<Rightarrow> (Rejected e, w1)
      | (Fulfilled userResponse, w1) \<Rightarrow>
          if \<not> ok userResponse then
            (case body_text userResponse of
               Rejected e \<Rightarrow> (Rejected e, w1)
             | Fulfilled errorText \<Rightarrow> (Fulfilled None, w1))
          else
            (case body_json userResponse of
               Rejected e \<Rightarrow> (Rejected e, w1)
             | Fulfilled userData \<Rightarrow> (Fulfilled userData, w1)))"

text \<open>
  The pagination loop. The source has it three times, with three query shapes:
  in \<^verbatim>\<open>fetchAssignedTasks\<close> (lines 343-388) and twice in the fallback of
  \<^verbatim>\<open>fetchTasksForToken\<close> (lines 536-562 and 576-599); the last one leaves the loop on
  a response that is not \<^verbatim>\<open>ok\<close> without reading its text. The loop has no bound of
  its own: the first argument is the number of pages it may still ask for, and
  \<^term>\<open>None\<close> says that they did not suffice.
\<close>

fun paginate ::
  "nat \<Rightarrow> env \<Rightarrow> string \<Rightarrow> (string option \<Rightarrow> tasks_query) \<Rightarrow> bool \<Rightarrow> task list \<Rightarrow> string option \<Rightarrow>
     world \<Rightarrow> (task list promise \<times> world) option" where
  "paginate 0 env accessToken query readsText allCompletedTasks pageOffset w = None"
| "paginate (Suc fuel) env accessToken query readsText allCompletedTasks pageOffset w =
     (case fetch_tasks env accessToken (query pageOffset) w of
        (Rejected e, w1) \<Rightarrow> Some (Rejected e, w1)
      | (Fulfilled tasksResponse, w1) \<Rightarrow>
          if \<not> ok tasksResponse then
            (if readsText then
               (case body_text tasksResponse of
                  Rejected e \<Rightarrow> Some (Rejected e, w1)
                | Fulfilled errorText \<Rightarrow> Some (Fulfilled allCompletedTasks, w1))
             else Some (Fulfilled allCompletedTasks, w1))
          else
            (case body_json tasksResponse of
               Rejected e \<Rightarrow> Some (Rejected e, w1)
             | Fulfilled tasksData \<Rightarrow>
                 (let completedTasks = filter completed (data tasksData);
                      collected = allCompletedTasks @ completedTasks
                  in case next_page tasksData of
                       None \<Rightarrow> Some (Fulfilled collected, w1)
                     | Some page \<Rightarrow>
                         if truthy (offset page)
                         then paginate fuel env accessToken query readsText collected (offset page) w1
                         else Some (Fulfilled collected, w1))))"

definition tasksPerPage :: nat where
  "tasksPerPage = 100"

definition assigned_query :: "string \<Rightarrow> string \<Rightarrow> int \<Rightarrow> string option \<Rightarrow> tasks_query" where
  "assigned_query workspace userId completedSince pageOffset =
     \<lparr>q_workspace = workspace, q_assignee = userId, q_completed_since = Some completedSince,
      q_limit = tasksPerPage, q_opt_fields = ''gid,name,completed,completed_at'',
      q_offset = (if truthy pageOffset then pageOffset else None)\<rparr>"

definition me_query :: "string \<Rightarrow> int option \<Rightarrow> string option \<Rightarrow> tasks_query" where
  "me_query workspace completedSince pageOffset =
     \<lparr>q_workspace = workspace, q_assignee = ''me'', q_completed_since = completedSince,
      q_limit = tasksPerPage, q_opt_fields = ''name,completed,completed_at'',
      q_offset = (if truthy pageOffset then pageOffset else None)\<rparr>"

text \<open>\<^verbatim>\<open>fetchAssignedTasks\<close> (lines 328-392).\<close>

definition fetchAssignedTasks ::
  "nat \<Rightarrow> env \<Rightarrow> string \<Rightarrow> string \<Rightarrow> string \<Rightarrow> int \<Rightarrow> world \<Rightarrow> (task list promise \<times> world) option" where
  "fetchAssignedTasks fuel env accessToken workspace userId completedSince w =
     paginate fuel env accessToken (assigned_query workspace userId completedSince) True [] None w"

text \<open>\<^verbatim>\<open>userData.data && userData.data.workspaces && userData.data.workspaces.length > 0\<close>,
  and then the first workspace and the user.\<close>

definition first_workspace :: "user_data option \<Rightarrow> (string \<times> string) option" where
  "first_workspace userData =
     (case userData of
        None \<Rightarrow> None
      | Some d \<Rightarrow>
          (case workspaces d of
             None \<Rightarrow> None
           | Some [] \<Rightarrow> None
           | Some (workspace # others) \<Rightarrow> Some (workspace, user_gid d)))"

subsection \<open>The paths of a call\<close>

text \<open>
  The functions below return nothing in the source; they change the state and write to
  the console which way they went. The embedding returns the new state together with
  that way: the guard that ended the call, the error that was caught, or the tasks that
  the listing returned.
\<close>

datatype path =
    NotRun
  | DemoMode
  | NoCursor
  | NoWorkspaces
  | Failed js_error
  | TasksFailed js_error
  | Listed "task list"
  | UsedCache
  | ListedForMe "task list"
  | ListedWithoutDate "task list"
  | NothingFound

subsection \<open>Background refresh\<close>

text \<open>\<^verbatim>\<open>autoRefreshTasks\<close> (lines 106-179). The guard on the token stands before the
  \<^verbatim>\<open>try\<close>; every later way out goes through \<^verbatim>\<open>finally\<close>.\<close>

definition refresh_done :: "world \<Rightarrow> world" where
  "refresh_done w = w\<lparr>autoRefreshing := False\<rparr>"

text \<open>The three statements that end a successful fetch (lines 167-169, 281-285 and
  510-514): \<^verbatim>\<open>setTasks\<close>, \<^verbatim>\<open>saveTasks\<close> and
  \<^verbatim>\<open>saveLastSyncDate(new Date().toISOString())\<close>.\<close>

definition show_and_store :: "task list \<Rightarrow> world \<Rightarrow> world" where
  "show_and_store ts w =
     (let w1 = w\<lparr>tasks := ts\<rparr>;
          w2 = saveTasks ts w1
      in saveLastSyncDate (now w2) w2)"

definition autoRefreshTasks :: "nat \<Rightarrow> env \<Rightarrow> string \<Rightarrow> world \<Rightarrow> (path \<times> world) option" where
  "autoRefreshTasks fuel env accessToken w =
     (if accessToken = [] then Some (NotRun, w)
      else
        (case getLastSyncDate w of
           None \<Rightarrow> Some (NoCursor, refresh_done (w\<lparr>autoRefreshing := False\<rparr>))
         | Some lastSyncDate \<Rightarrow>
             (let existingTasks = getTasks w
              in case fetchUserData env accessToken w of
                   (Rejected e, w1) \<Rightarrow> Some (Failed e, refresh_done w1)
                 | (Fulfilled userData, w1) \<Rightarrow>
                     (case first_workspace userData of
                        None \<Rightarrow> Some (NoWorkspaces, refresh_done w1)
                      | Some (workspace, userId) \<Rightarrow>
                          (case fetchAssignedTasks fuel env accessToken workspace userId
                                  lastSyncDate w1 of
                             None \<Rightarrow> None
                           | Some (Rejected e, w2) \<Rightarrow> Some (TasksFailed e, refresh_done w2)
                           | Some (Fulfilled newTasks, w2) \<Rightarrow>
                               if length newTasks > 0
                               then Some (Listed newTasks,
                                  refresh_done (show_and_store (mergedTasks existingTasks newTasks) w2))
                               else Some (Listed newTasks, refresh_done w2))))))"

subsection \<open>Demo data and placeholders\<close>

text \<open>The demo branch of \<^verbatim>\<open>fetchTasksWithLookback\<close> (lines 220-229) and of
  \<^verbatim>\<open>fetchTasksForToken\<close> (lines 402-411): the state once the timer of one second
  has fired.\<close>

definition show_demo_tasks :: "env \<Rightarrow> world \<Rightarrow> world" where
  "show_demo_tasks env w =
     (case generateMockTasks env 15 (w\<lparr>now := now w + 1000\<rparr>) of
        (mockTasks, w1) \<Rightarrow> w1\<lparr>tasks := mockTasks, loading := False\<rparr>)"

text \<open>\<^verbatim>\<open>setTasks(generateMockTasks(20))\<close> (lines 612 and 644).\<close>

definition show_placeholders :: "env \<Rightarrow> world \<Rightarrow> world" where
  "show_placeholders env w =
     (case generateMockTasks env 20 w of (mockTasks, w1) \<Rightarrow> w1\<lparr>tasks := mockTasks\<rparr>)"

subsection \<open>Fetching with a lookback date, and the full history\<close>

text \<open>\<^verbatim>\<open>fetchTasksWithLookback\<close> (lines 213-307).\<close>

definition connect_failed :: "js_error \<Rightarrow> world \<Rightarrow> world" where
  "connect_failed e w =
     w\<lparr>error := Some (''Failed to connect to Asana: '' @ error_toString e), loading := False\<rparr>"

definition api_error :: "nat \<Rightarrow> string \<Rightarrow> js_error" where
  "api_error code errorText = Error (''Asana API error: '' @ decimal code @ '' - '' @ errorText)"

definition fetchTasksWithLookback ::
  "nat \<Rightarrow> env \<Rightarrow> string \<Rightarrow> int \<Rightarrow> world \<Rightarrow> (path \<times> world) option" where
  "fetchTasksWithLookback fuel env accessToken lookbackDate w =
     (let w0 = w\<lparr>loading := True, error := None\<rparr>
      in if accessToken = ''demo'' then Some (DemoMode, show_demo_tasks env w0)
         else
           (case fetch_user env accessToken w0 of
              (Rejected e, w1) \<Rightarrow> Some (Failed e, connect_failed e w1)
            | (Fulfilled userResponse, w1) \<Rightarrow>
                if \<not> ok userResponse then
                  (case body_text userResponse of
                     Rejected e \<Rightarrow> Some (Failed e, connect_failed e w1)
                   | Fulfilled errorText \<Rightarrow>
                       Some (Failed (api_error (status userResponse) errorText),
                             connect_failed (api_error (status userResponse) errorText) w1))
                else
                  (case body_json userResponse of
                     Rejected e \<Rightarrow> Some (Failed e, connect_failed e w1)
                   | Fulfilled userData \<Rightarrow>
                       (case first_workspace userData of
                          None \<Rightarrow>
                            Some (NoWorkspaces,
                                  w1\<lparr>error := Some ''No workspaces found in your Asana account'',
                                     loading := False\<rparr>)
                        | Some (workspace, userId) \<Rightarrow>
                            (case fetchAssignedTasks fuel env accessToken workspace userId
                                    lookbackDate w1 of
                               None \<Rightarrow> None
                             | Some (Rejected e, w2) \<Rightarrow>
                                 Some (TasksFailed e,
                                       w2\<lparr>error := Some (''Failed to fetch tasks: '' @ error_toString e),
                                          loading := False\<rparr>)
                             | Some (Fulfilled allTasks, w2) \<Rightarrow>
                                 if length allTasks > 0
                                 then Some (Listed allTasks, (show_and_store allTasks w2)\<lparr>loading := False\<rparr>)
                                 else Some (Listed allTasks, w2\<lparr>tasks := [], loading := False\<rparr>))))))"

text \<open>\<^verbatim>\<open>fetchAllHistoricalTasks\<close> (lines 202-210).\<close>

definition fetchAllHistoricalTasks :: "nat \<Rightarrow> env \<Rightarrow> world \<Rightarrow> (path \<times> world) option" where
  "fetchAllHistoricalTasks fuel env w =
     (case token w of
        None \<Rightarrow> Some (NotRun, w)
      | Some tok \<Rightarrow>
          if tok = [] then Some (NotRun, w)
          else (let w1 = clearTasks w
                in fetchTasksWithLookback fuel env tok (getOneYearAgoISOString env w1) w1))"

subsection \<open>Connecting and disconnecting\<close>

text \<open>\<^verbatim>\<open>handleAsanaConnect\<close> (lines 309-325) and \<^verbatim>\<open>handleDisconnect\<close>
  (lines 651-661).\<close>

definition handleAsanaConnect :: "string \<Rightarrow> world \<Rightarrow> world" where
  "handleAsanaConnect newToken w =
     (let w1 = w\<lparr>error := None\<rparr>;
          w2 = w1\<lparr>token := Some newToken\<rparr>;
          w3 = (if newToken \<noteq> ''demo'' then saveToken newToken w2 else w2)
      in clearTasks w3)"

definition handleDisconnect :: "world \<Rightarrow> world" where
  "handleDisconnect w =
     (let w1 = clearToken w;
          w2 = clearTasks w1
      in w2\<lparr>token := None, tasks := []\<rparr>)"

text \<open>
  \<^verbatim>\<open>handleConnect\<close> of \<^verbatim>\<open>AsanaConnect.tsx\<close> (lines 54-66). The component has the
  text of the input field and \<^verbatim>\<open>hasSavedToken\<close>; \<^verbatim>\<open>onConnect\<close> is
  \<^verbatim>\<open>handleAsanaConnect\<close>.
\<close>

record connect_form =
  field :: string
  hasSavedToken :: bool

definition handleConnect :: "connect_form \<Rightarrow> world \<Rightarrow> connect_form \<times> world" where
  "handleConnect form w =
     (let tokenToUse = (if trim (field form) \<noteq> [] then trim (field form) else ''demo'')
      in if tokenToUse \<noteq> ''demo''
         then (form\<lparr>hasSavedToken := True\<rparr>, handleAsanaConnect tokenToUse (saveToken tokenToUse w))
         else (form, handleAsanaConnect tokenToUse w))"

definition handleDemoConnect :: "connect_form \<Rightarrow> world \<Rightarrow> connect_form \<times> world" where
  "handleDemoConnect form w = (form, handleAsanaConnect ''demo'' w)"

subsection \<open>The foreground fetch\<close>

text \<open>The chain of tests of the outer \<^verbatim>\<open>catch\<close> of \<^verbatim>\<open>fetchTasksForToken\<close>
  (lines 624-640), on the message of the error.\<close>

definition classify :: "string \<Rightarrow> string" where
  "classify errorMessage =
     (if includes' errorMessage ''401'' then
        ''Authentication failed: Your Asana token might be invalid or expired. Please get a new token.''
      else if includes' errorMessage ''403'' then
        ''Access denied: You don't have permission to access this Asana resource.''
      else if includes' errorMessage ''429'' then
        ''Rate limit exceeded: Too many requests to Asana. Please try again later.''
      else if includes' errorMessage ''5'' then
        ''Asana server error: The Asana service might be experiencing issues. Please try again later.''
      else if includes' errorMessage ''fetch'' \<or> includes' errorMessage ''network'' then
        ''Network error: Could not connect to Asana. Please check your internet connection.''
      else if includes' errorMessage ''Timestamp must be in ISO-8601'' then
        ''Date format error: We've fixed the date format issue. Please try again.''
      else if includes' errorMessage ''Must specify exactly one of'' then
        ''API requirement: We've updated the API query format. Please try again.''
      else ''Failed to fetch tasks from Asana: '' @ errorMessage)"

text \<open>The outer \<^verbatim>\<open>catch\<close> and \<^verbatim>\<open>finally\<close> (lines 618-647), and the inner
  \<^verbatim>\<open>catch\<close> (lines 609-613) followed by the same \<^verbatim>\<open>finally\<close>.\<close>

definition fetch_failed :: "env \<Rightarrow> js_error \<Rightarrow> world \<Rightarrow> world" where
  "fetch_failed env e w =
     (show_placeholders env (w\<lparr>error := Some (classify (message e))\<rparr>))\<lparr>loading := False\<rparr>"

definition tasks_failed :: "env \<Rightarrow> world \<Rightarrow> world" where
  "tasks_failed env w = (show_placeholders env w)\<lparr>loading := False\<rparr>"

definition no_workspaces_error :: js_error where
  "no_workspaces_error =
     Error ''No workspaces found in your Asana account. Please ensure you have access to at least one workspace.''"

text \<open>
  The fallback of lines 527-606, reached when the listing returned nothing and nothing is
  cached: the listing for the assignee \<^verbatim>\<open>me\<close>, then the same without a date.
\<close>

definition alternative_listings ::
  "nat \<Rightarrow> env \<Rightarrow> string \<Rightarrow> string \<Rightarrow> int \<Rightarrow> world \<Rightarrow> (path \<times> world) option" where
  "alternative_listings fuel env accessToken workspace completedSince w =
     (case paginate fuel env accessToken (me_query workspace (Some completedSince)) True [] None w of
        None \<Rightarrow> None
      | Some (Rejected e, w1) \<Rightarrow> Some (TasksFailed e, tasks_failed env w1)
      | Some (Fulfilled allCompletedTasks, w1) \<Rightarrow>
          if length allCompletedTasks > 0
          then Some (ListedForMe allCompletedTasks,
                     w1\<lparr>tasks := allCompletedTasks, loading := False\<rparr>)
          else
            (case paginate fuel env accessToken (me_query workspace None) False [] None w1 of
               None \<Rightarrow> None
             | Some (Rejected e, w2) \<Rightarrow> Some (TasksFailed e, tasks_failed env w2)
             | Some (Fulfilled allTasks, w2) \<Rightarrow>
                 if length allTasks > 0
                 then Some (ListedWithoutDate allTasks, w2\<lparr>tasks := allTasks, loading := False\<rparr>)
                 else Some (NothingFound, w2\<lparr>loading := False\<rparr>)))"

text \<open>\<^verbatim>\<open>fetchTasksForToken\<close> (lines 395-648).\<close>

definition fetchTasksForToken :: "nat \<Rightarrow> env \<Rightarrow> string \<Rightarrow> world \<Rightarrow> (path \<times> world) option" where
  "fetchTasksForToken fuel env accessToken w =
     (let w0 = w\<lparr>loading := True, error := None\<rparr>
      in if accessToken = ''demo'' then Some (DemoMode, show_demo_tasks env w0)
         else
           (let existingTasks = getTasks w0;
                taskMap = seedTaskMap existingTasks
            in case fetch_user env accessToken w0 of
                 (Rejected e, w1) \<Rightarrow> Some (Failed e, fetch_failed env e w1)
               | (Fulfilled userResponse, w1) \<Rightarrow>
                   if \<not> ok userResponse then
                     (case body_text userResponse of
                        Rejected e \<Rightarrow> Some (Failed e, fetch_failed env e w1)
                      | Fulfilled errorText \<Rightarrow>
                          Some (Failed (api_error (status userResponse) errorText),
                                fetch_failed env (api_error (status userResponse) errorText) w1))
                   else
                     (case body_json userResponse of
                        Rejected e \<Rightarrow> Some (Failed e, fetch_failed env e w1)
                      | Fulfilled userData \<Rightarrow>
                          (case first_workspace userData of
                             None \<Rightarrow>
                               Some (Failed no_workspaces_error,
                                     fetch_failed env no_workspaces_error w1)
                           | Some (workspace, userId) \<Rightarrow>
                               (let lastSyncDate = getLastSyncDate w1;
                                    thirtyDaysAgo = getThirtyDaysAgoISOString env w1;
                                    completedSince =
                                      (case lastSyncDate of
                                         Some date \<Rightarrow> date
                                       | None \<Rightarrow> thirtyDaysAgo)
                                in case fetchAssignedTasks fuel env accessToken workspace userId
                                          completedSince w1 of
                                     None \<Rightarrow> None
                                   | Some (Rejected e, w2) \<Rightarrow>
                                       Some (TasksFailed e, tasks_failed env w2)
                                   | Some (Fulfilled newCompletedTasks, w2) \<Rightarrow>
                                       if length newCompletedTasks > 0
                                       then Some (Listed newCompletedTasks,
                                          (show_and_store
                                             (Map_values (fst (mergeIntoMap taskMap newCompletedTasks)))
                                             w2)\<lparr>loading := False\<rparr>)
                                       else if length existingTasks > 0
                                       then Some (UsedCache,
                                          w2\<lparr>tasks := existingTasks, loading := False\<rparr>)
                                       else alternative_listings fuel env accessToken workspace
                                              completedSince w2)))))"

subsection \<open>The effects of the \<^verbatim>\<open>App\<close> component\<close>

text \<open>
  The effect that runs once, when the component is mounted (lines 60-88). It is
  synchronous up to the call of \<^verbatim>\<open>autoRefreshTasks\<close>; the result is the state it
  leaves and the token with which it starts the refresh, if it starts one.
\<close>

definition mountEffect :: "world \<Rightarrow> world \<times> string option" where
  "mountEffect w =
     (case getToken w of
        None \<Rightarrow> (w, None)
      | Some savedToken \<Rightarrow>
          if savedToken = [] then (w, None)
          else
            (let w1 = w\<lparr>token := Some savedToken\<rparr>;
                 cachedTasks = getTasks w1
             in if length cachedTasks > 0 then
                  (let w2 = w1\<lparr>tasks := cachedTasks\<rparr>
                   in case getLastSyncTimestamp w2 of
                        None \<Rightarrow> (w2\<lparr>loading := False\<rparr>, None)
                      | Some cacheTimestamp \<Rightarrow>
                          if cacheTimestamp \<noteq> 0 \<and> isCacheStale (now w2) cacheTimestamp
                          then (w2\<lparr>autoRefreshing := True\<rparr>, Some savedToken)
                          else (w2\<lparr>loading := False\<rparr>, None))
                else (w1, None)))"

text \<open>The effect that runs when \<^verbatim>\<open>token\<close> has changed (lines 91-103).\<close>

definition tokenEffect :: "nat \<Rightarrow> env \<Rightarrow> world \<Rightarrow> (path \<times> world) option" where
  "tokenEffect fuel env w =
     (case token w of
        None \<Rightarrow> Some (NotRun, w)
      | Some tok \<Rightarrow>
          if tok = [] then Some (NotRun, w)
          else if length (tasks w) = 0 \<or> tok = ''demo'' then fetchTasksForToken fuel env tok w
          else Some (NotRun, w))"

text \<open>Connecting from the form: the handler, then the effect on the new token.\<close>

definition connect :: "nat \<Rightarrow> env \<Rightarrow> string \<Rightarrow> world \<Rightarrow> (path \<times> world) option" where
  "connect fuel env newToken w = tokenEffect fuel env (handleAsanaConnect newToken w)"
subsection \<open>Other handlers during a request\<close>












subsection \<open>What a request leaves unchanged\<close>

text \<open>A state that differs from an earlier one by requests sent and time passed only.\<close>

definition after_requests :: "world \<Rightarrow> world \<Rightarrow> bool" where
  "after_requests w w1 =
     (w1 = w\<lparr>now := now w1, sent := sent w1\<rparr> \<and> now w \<le> now w1 \<and>
      (\<exists>new. sent w1 = sent w @ new))"

text \<open>The requests sent between two states.\<close>

definition requests_since :: "world \<Rightarrow> world \<Rightarrow> request list" where
  "requests_since w w1 = drop (length (sent w)) (sent w1)"

text \<open>The lower bound a request states, if it is a listing with one.\<close>

fun completed_since_of :: "request \<Rightarrow> int option" where
  "completed_since_of (GetUser bearer) = None"
| "completed_since_of (GetTasks bearer q) = q_completed_since q"

fun is_listing :: "request \<Rightarrow> bool" where
  "is_listing (GetUser bearer) = False"
| "is_listing (GetTasks bearer q) = True"


text \<open>The state in which the two foreground functions begin their work: after
  \<^verbatim>\<open>setLoading(true)\<close> and \<^verbatim>\<open>setError(null)\<close>.\<close>

definition started :: "world \<Rightarrow> world" where
  "started w = w\<lparr>loading := True, error := None\<rparr>"

text \<open>The identity lookup with which the two foreground functions begin: it throws, or
  it names no workspace, or it gives the first workspace and the user.\<close>

definition lookup_phase ::
  "env \<Rightarrow> string \<Rightarrow> world \<Rightarrow> (js_error + (string \<times> string) option) \<times> world" where
  "lookup_phase env tok w =
     (case fetch_user env tok w of
        (Rejected e, w1) \<Rightarrow> (Inl e, w1)
      | (Fulfilled userResponse, w1) \<Rightarrow>
          if \<not> ok userResponse then
            (case body_text userResponse of
               Rejected e \<Rightarrow> (Inl e, w1)
             | Fulfilled errorText \<Rightarrow> (Inl (api_error (status userResponse) errorText), w1))
          else
            (case body_json userResponse of
               Rejected e \<Rightarrow> (Inl e, w1)
             | Fulfilled userData \<Rightarrow> (Inr (first_workspace userData), w1)))"


subsection \<open>Example states and environments\<close>

text \<open>The state of a session that starts at a given time on an empty
  \<^verbatim>\<open>localStorage\<close>: the initial values of the state variables of \<^verbatim>\<open>App\<close>.\<close>

definition session_start :: "int \<Rightarrow> world" where
  "session_start t =
     \<lparr>storage_available = True, asana_token_item = None, cached_tasks_item = None,
      last_sync_item = None, token = None, tasks = [], loading = False, error = None,
      autoRefreshing = False, now = t, sent = [], randoms = 0\<rparr>"

text \<open>A later session of a user who has connected before: the token, the cache with its
  capture time, and the cursor are stored, and the mount effect has shown the cache.\<close>

definition stored_session :: "int \<Rightarrow> task list \<Rightarrow> int \<Rightarrow> world" where
  "stored_session t cached captured =
     (session_start t)
       \<lparr>asana_token_item := Some ''1/1200'',
        cached_tasks_item := Some \<lparr>cache_tasks = cached, timestamp = captured\<rparr>,
        last_sync_item := Some captured\<rparr>"

definition running_session :: "int \<Rightarrow> task list \<Rightarrow> int \<Rightarrow> world" where
  "running_session t cached captured =
     (stored_session t cached captured)\<lparr>token := Some ''1/1200'', tasks := cached\<rparr>"

text \<open>A response with status 200 and the given JSON body.\<close>

definition ok_response :: "'j \<Rightarrow> 'j response" where
  "ok_response j =
     \<lparr>ok = True, status = 200, body_text = Fulfilled [], body_json = Fulfilled j\<rparr>"

text \<open>
  A remote source that answers every identity lookup, after 5 ms, with one user in one
  workspace, and every listing, after 7 ms, with one last page of the given records; and
  a network on which every request fails after 3 ms, as \<^verbatim>\<open>fetch\<close> fails when the
  host cannot be reached. Days have 24 hours and years 365 days in both.
\<close>

definition answering :: "task list \<Rightarrow> env" where
  "answering page =
     \<lparr>identity_lookup =
        (\<lambda>k. (5, Fulfilled (ok_response (Some \<lparr>user_gid = ''u1'', workspaces = Some [''w1'']\<rparr>)))),
      task_listing = (\<lambda>k. (7, Fulfilled (ok_response \<lparr>data = page, next_page = None\<rparr>))),
      random_days = (\<lambda>k. k mod 30),
      days_before = (\<lambda>n t. t - 86400000 * int n),
      year_before = (\<lambda>t. t - 86400000 * 365)\<rparr>"

definition failed_to_fetch :: js_error where
  "failed_to_fetch = \<lparr>error_name = ''TypeError'', message = ''Failed to fetch''\<rparr>"

definition unreachable :: env where
  "unreachable =
     \<lparr>identity_lookup = (\<lambda>k. (3, Rejected failed_to_fetch)),
      task_listing = (\<lambda>k. (3, Rejected failed_to_fetch)),
      random_days = (\<lambda>k. k mod 30),
      days_before = (\<lambda>n t. t - 86400000 * int n),
      year_before = (\<lambda>t. t - 86400000 * 365)\<rparr>"

text \<open>A remote source that knows the user but whose listing cannot be reached.\<close>

definition listing_unreachable :: env where
  "listing_unreachable =
     (answering [])\<lparr>task_listing := (\<lambda>k. (3, Rejected failed_to_fetch))\<rparr>"








section \<open>Properties of the merge\<close>

subsection \<open>The map operations\<close>


lemma Map_set_keys:
  "map fst (Map_set k v m) = (if k \<in> set (map fst m) then map fst m else map fst m @ [k])"
  by (induction m) (auto simp: rev_image_eqI)

lemma Map_set_map_of: "map_of (Map_set k v m) = (map_of m)(k \<mapsto> v)"
  by (induction m) (auto simp: fun_upd_twist)

lemma Map_set_distinct: "distinct (map fst m) \<Longrightarrow> distinct (map fst (Map_set k v m))"
  by (simp add: Map_set_keys)

lemma fst_merge_task: "fst (merge_task t (m, n, u)) = seed_task t m"
  by (simp add: merge_task_def seed_task_def split: option.splits)

lemma fst_fold_merge_task: "fst (fold merge_task ts (m, n, u)) = fold seed_task ts m"
proof (induction ts arbitrary: m n u)
  case Nil
  show ?case by simp
next
  case (Cons t ts)
  obtain m' n' u' where step: "merge_task t (m, n, u) = (m', n', u')"
    by (cases "merge_task t (m, n, u)") auto
  have "m' = seed_task t m"
    using fst_merge_task [of t m n u] step by simp
  with Cons.IH [of m' n' u'] step show ?case by simp
qed

lemma mergedTasks_fold:
  "mergedTasks c i = map snd (fold seed_task (c @ i) [])"
  by (simp add: mergedTasks_def mergeIntoMap_def seedTaskMap_def Map_values_def Map_new_def
      fst_fold_merge_task)

lemma seed_task_keys:
  "map fst (seed_task t m) =
     (if truthy (gid t) \<and> the (gid t) \<notin> set (map fst m) then map fst m @ [the (gid t)] else map fst m)"
  by (auto simp: seed_task_def Map_set_keys split: option.splits)

lemma identifiers_Cons:
  "identifiers (t # ts) = (if truthy (gid t) then the (gid t) # identifiers ts else identifiers ts)"
  by (cases "gid t") (auto simp: identifiers_def List.map_filter_simps)

lemma first_occurrences_filter:
  "first_occurrences (filter P xs) = filter P (first_occurrences xs)"
proof (induction xs rule: first_occurrences.induct)
  case 1
  show ?case by simp
next
  case (2 x xs)
  have IH: "first_occurrences (filter (\<lambda>y. y \<noteq> x \<and> P y) xs)
      = filter P (first_occurrences (filter (\<lambda>y. y \<noteq> x) xs))"
    using "2.IH" by simp
  show ?case
  proof (cases "P x")
    case True
    have "filter (\<lambda>y. y \<noteq> x) (filter P xs) = filter (\<lambda>y. y \<noteq> x \<and> P y) xs"
      by (auto intro: filter_cong)
    with True IH show ?thesis by simp
  next
    case False
    then have "filter P xs = filter (\<lambda>y. y \<noteq> x \<and> P y) xs"
      by (auto intro: filter_cong)
    with False IH show ?thesis by simp
  qed
qed

lemma fold_seed_keys:
  "map fst (fold seed_task ts m) =
     map fst m @ first_occurrences (filter (\<lambda>k. k \<notin> set (map fst m)) (identifiers ts))"
proof (induction ts arbitrary: m)
  case Nil
  show ?case by (simp add: identifiers_def List.map_filter_simps)
next
  case (Cons t ts)
  show ?case
  proof (cases "truthy (gid t) \<and> the (gid t) \<notin> set (map fst m)")
    case True
    then have keys: "map fst (seed_task t m) = map fst m @ [the (gid t)]"
      by (simp add: seed_task_keys)
    have flt: "filter (\<lambda>k. k \<notin> set (map fst m @ [the (gid t)])) (identifiers ts)
        = filter (\<lambda>y. y \<noteq> the (gid t)) (filter (\<lambda>k. k \<notin> set (map fst m)) (identifiers ts))"
      by (auto intro: filter_cong)
    show ?thesis
      using True Cons.IH [of "seed_task t m"]
      by (simp only: fold_simps keys flt identifiers_Cons) (simp add: first_occurrences_filter)
  next
    case False
    then have keys: "map fst (seed_task t m) = map fst m"
      by (auto simp add: seed_task_keys)
    show ?thesis
      using False Cons.IH [of "seed_task t m"]
      by (auto simp: keys identifiers_Cons)
  qed
qed


lemma fold_seed_distinct:
  "distinct (map fst m) \<Longrightarrow> distinct (map fst (fold seed_task ts m))"
proof (induction ts arbitrary: m)
  case Nil
  then show ?case by simp
next
  case (Cons t ts)
  have "distinct (map fst (seed_task t m))"
    using Cons.prems by (auto simp: seed_task_def Map_set_distinct split: option.splits)
  then show ?case using Cons.IH by simp
qed

lemma Map_set_set: "set (Map_set k v m) \<subseteq> insert (k, v) (set m)"
  by (induction m) (auto split: if_splits)

lemma seed_task_keyed: "keyed m \<Longrightarrow> keyed (seed_task t m)"
  using Map_set_set [of "the (gid t)" t m]
  by (auto simp: keyed_def seed_task_def split: option.splits)

lemma fold_seed_keyed: "keyed m \<Longrightarrow> keyed (fold seed_task ts m)"
  by (induction ts arbitrary: m) (auto simp: seed_task_keyed)


lemma seed_task_map_of:
  "k \<noteq> [] \<Longrightarrow> map_of (seed_task t m) k = (if gid t = Some k then Some t else map_of m k)"
  by (auto simp: seed_task_def Map_set_map_of split: option.splits)

lemma fold_seed_map_of:
  "k \<noteq> [] \<Longrightarrow> map_of (fold seed_task ts m) k =
     (case last_with k ts of Some t \<Rightarrow> Some t | None \<Rightarrow> map_of m k)"
proof (induction ts arbitrary: m)
  case Nil
  show ?case by simp
next
  case (Cons t ts)
  show ?case
    using Cons.IH [OF Cons.prems, of "seed_task t m"] Cons.prems
    by (simp add: last_with.simps seed_task_map_of split: option.splits)
qed

lemma keyed_identifiers: "keyed m \<Longrightarrow> identifiers (map snd m) = map fst m"
  by (induction m) (auto simp: keyed_def identifiers_Cons identifiers_def List.map_filter_simps)

lemma keyed_last_with:
  "keyed m \<Longrightarrow> distinct (map fst m) \<Longrightarrow> last_with k (map snd m) = map_of m k"
proof (induction m)
  case Nil
  show ?case by simp
next
  case (Cons e m)
  obtain k' t' where e: "e = (k', t')" by (cases e)
  have km: "keyed m" and dm: "distinct (map fst m)" and g: "gid t' = Some k'"
    and fresh: "k' \<notin> fst ` set m"
    using Cons.prems by (auto simp: keyed_def e)
  have IH: "last_with k (map snd m) = map_of m k" using Cons.IH km dm by simp
  show ?case
  proof (cases "k' = k")
    case True
    then have "map_of m k = None" using fresh by (simp add: map_of_eq_None_iff)
    with True IH g show ?thesis by (simp add: e last_with.simps)
  next
    case False
    with IH g show ?thesis by (auto simp add: e last_with.simps split: option.splits)
  qed
qed


lemma represents_step:
  assumes "represents m om"
  shows "represents (seed_task t m) (om_insert t om)"
proof (cases "gid t")
  case None
  with assms show ?thesis by (simp add: seed_task_def om_insert_def)
next
  case (Some k)
  show ?thesis
  proof (cases "k = []")
    case True
    with Some assms show ?thesis by (simp add: seed_task_def om_insert_def)
  next
    case False
    have io: "insertion_order om = map fst m" and b: "binding om = map_of m"
      and d: "distinct (map fst m)"
      using assms by (simp_all add: represents_def)
    have none: "map_of m k = None \<longleftrightarrow> k \<notin> set (map fst m)"
      by (simp add: map_of_eq_None_iff)
    show ?thesis
      using Some False none d
      by (auto simp: represents_def seed_task_def om_insert_def io b Map_set_keys
          Map_set_map_of split: option.splits)
  qed
qed

lemma represents_fold:
  "represents m om \<Longrightarrow> represents (fold seed_task ts m) (fold om_insert ts om)"
  by (induction ts arbitrary: m om) (auto simp: represents_step)

lemma distinct_map_Some: "distinct xs \<Longrightarrow> distinct (map Some xs)"
  by (simp add: distinct_map)

lemma map_filter_pairs:
  "(\<And>e. e \<in> set m \<Longrightarrow> f (fst e) = Some (snd e)) \<Longrightarrow>
     List.map_filter f (map fst m) = map snd m"
  by (induction m) (simp_all add: List.map_filter_simps)

lemma map_filter_map_of:
  "distinct (map fst m) \<Longrightarrow> List.map_filter (map_of m) (map fst m) = map snd m"
  by (rule map_filter_pairs) (cases rule: prod.exhaust, simp)

lemma represents_values: "represents m om \<Longrightarrow> om_values om = Map_values m"
  by (simp add: represents_def om_values_def Map_values_def map_filter_map_of)

lemma merge_refines: "mergedTasks c i = merge_reference c i"
proof -
  have "represents [] om_empty" by (simp add: represents_def om_empty_def)
  then have "represents (fold seed_task (c @ i) []) (fold om_insert (c @ i) om_empty)"
    by (rule represents_fold)
  then have "om_values (fold om_insert (c @ i) om_empty) = Map_values (fold seed_task (c @ i) [])"
    by (rule represents_values)
  then show ?thesis
    by (simp add: merge_reference_def mergedTasks_fold Map_values_def)
qed

lemma first_occurrences_append:
  "first_occurrences (xs @ ys) =
     first_occurrences xs @ first_occurrences (filter (\<lambda>y. y \<notin> set xs) ys)"
proof (induction xs arbitrary: ys rule: first_occurrences.induct)
  case 1
  show ?case by simp
next
  case (2 x xs)
  have "filter (\<lambda>y. y \<notin> set (filter (\<lambda>y. y \<noteq> x) xs)) (filter (\<lambda>y. y \<noteq> x) ys)
      = filter (\<lambda>y. y \<notin> set (x # xs)) ys"
    by (auto intro: filter_cong)
  with "2.IH" [of "filter (\<lambda>y. y \<noteq> x) ys"] show ?case by simp
qed

lemma identifiers_append: "identifiers (xs @ ys) = identifiers xs @ identifiers ys"
  by (induction xs) (simp_all add: identifiers_Cons, simp add: identifiers_def)

lemma merged_identifiers:
  "identifiers (mergedTasks c i) = first_occurrences (identifiers c @ identifiers i)"
proof -
  have k: "keyed (fold seed_task (c @ i) [])"
    by (rule fold_seed_keyed) (simp add: keyed_def)
  show ?thesis
    using keyed_identifiers [OF k] fold_seed_keys [of "c @ i" "[]"]
    by (simp add: mergedTasks_fold identifiers_append)
qed

lemma merged_last_with:
  "last_with k (mergedTasks c i) =
     (if k = [] then None
      else case last_with k i of Some t \<Rightarrow> Some t | None \<Rightarrow> last_with k c)"
proof -
  let ?m = "fold seed_task (c @ i) []"
  have k: "keyed ?m"
    by (rule fold_seed_keyed) (simp add: keyed_def)
  have d: "distinct (map fst ?m)"
    by (rule fold_seed_distinct) simp
  have lw: "last_with k (mergedTasks c i) = map_of ?m k"
    using keyed_last_with [OF k d] by (simp add: mergedTasks_fold)
  show ?thesis
  proof (cases "k = []")
    case True
    have "k \<notin> fst ` set ?m" using k True by (auto simp: keyed_def)
    then have "map_of ?m k = None" by (simp add: map_of_eq_None_iff)
    with True lw show ?thesis by simp
  next
    case False
    have "map_of ?m k = (case last_with k i of Some t \<Rightarrow> Some t | None \<Rightarrow> last_with k c)"
      using fold_seed_map_of [OF False, of i "fold seed_task c []"]
        fold_seed_map_of [OF False, of c "[]"]
      by (simp split: option.splits)
    with False lw show ?thesis by simp
  qed
qed

lemma merged_well_formed: "well_formed_cache (mergedTasks c i)"
proof -
  let ?m = "fold seed_task (c @ i) []"
  have k: "keyed ?m"
    by (rule fold_seed_keyed) (simp add: keyed_def)
  have d: "distinct (map fst ?m)"
    by (rule fold_seed_distinct) simp
  have g: "map gid (map snd ?m) = map Some (map fst ?m)"
    using k by (auto simp: keyed_def)
  have "distinct (map gid (map snd ?m))"
    unfolding g using d by (rule distinct_map_Some)
  moreover have "list_all (\<lambda>t. truthy (gid t)) (map snd ?m)"
    using k by (auto simp: keyed_def list_all_iff)
  ultimately show ?thesis by (simp add: well_formed_cache_def mergedTasks_fold)
qed


lemma Map_set_fresh: "k \<notin> set (map fst m) \<Longrightarrow> Map_set k v m = m @ [(k, v)]"
  by (induction m) auto

lemma Map_set_same: "distinct (map fst m) \<Longrightarrow> (k, v) \<in> set m \<Longrightarrow> Map_set k v m = m"
  by (induction m) (auto simp: rev_image_eqI)

lemma snd_entry: "snd (entry t) = t"
  by (simp add: entry_def split: option.splits)

lemma map_snd_entry: "map snd (map entry c) = c"
  by (induction c) (simp_all add: snd_entry)

lemma set_identifiers: "set (identifiers c) = {k. Some k \<in> set (map gid c) \<and> k \<noteq> []}"
proof (induction c)
  case Nil
  show ?case by (simp add: identifiers_def)
next
  case (Cons t c)
  show ?case
  proof (cases "gid t")
    case None
    with Cons.IH show ?thesis by (auto simp: identifiers_Cons)
  next
    case (Some k)
    with Cons.IH show ?thesis by (auto simp: identifiers_Cons)
  qed
qed

lemma map_fst_entry:
  "list_all (\<lambda>t. truthy (gid t)) c \<Longrightarrow> map Some (map fst (map entry c)) = map gid c"
proof (induction c)
  case Nil
  show ?case by simp
next
  case (Cons t c)
  then obtain k where "gid t = Some k" by (cases "gid t") auto
  with Cons show ?case by (simp add: entry_def)
qed

lemma distinct_entries:
  assumes "well_formed_cache c"
  shows "distinct (map fst (map entry c))"
proof -
  have "distinct (map Some (map fst (map entry c)))"
    using assms map_fst_entry [of c] by (simp only: well_formed_cache_def)
  then show ?thesis by (simp only: distinct_map)
qed

lemma fold_seed_well_formed:
  "well_formed_cache c \<Longrightarrow> set (identifiers c) \<inter> set (map fst m) = {} \<Longrightarrow>
     fold seed_task c m = m @ map entry c"
proof (induction c arbitrary: m)
  case Nil
  show ?case by simp
next
  case (Cons t c)
  from Cons.prems(1) obtain k where k: "gid t = Some k" "k \<noteq> []"
    by (cases "gid t") (auto simp: well_formed_cache_def)
  have wf: "well_formed_cache c" and fresh_c: "Some k \<notin> set (map gid c)"
    using Cons.prems(1) k by (auto simp: well_formed_cache_def)
  have fresh_m: "k \<notin> set (map fst m)"
    using Cons.prems(2) k by (simp add: identifiers_Cons)
  have step: "seed_task t m = m @ [(k, t)]"
    using k fresh_m by (simp add: seed_task_def Map_set_fresh)
  have "set (identifiers c) \<inter> set (map fst (m @ [(k, t)])) = {}"
    using Cons.prems(2) k fresh_c by (auto simp: identifiers_Cons set_identifiers)
  from Cons.IH [OF wf this] show ?case
    by (simp add: step entry_def k)
qed

lemma merge_nothing: "well_formed_cache c \<Longrightarrow> mergedTasks c [] = c"
  using fold_seed_well_formed [of c "[]"] map_snd_entry [of c]
  by (simp add: mergedTasks_fold)

lemma merge_present:
  assumes wf: "well_formed_cache c" and r: "r \<in> set c"
  shows "mergedTasks c [r] = c"
proof -
  have m: "fold seed_task c [] = map entry c"
    using fold_seed_well_formed [OF wf, of "[]"] by simp
  obtain k where k: "gid r = Some k" "k \<noteq> []"
    using wf r by (cases "gid r") (auto simp: well_formed_cache_def list_all_iff)
  have d: "distinct (map fst (map entry c))"
    using wf by (rule distinct_entries)
  have "(k, r) \<in> set (map entry c)"
    using r k by (auto simp: entry_def image_iff intro!: bexI [of _ r])
  then have "Map_set k r (map entry c) = map entry c"
    using d by (rule Map_set_same [rotated])
  then have "fold seed_task (c @ [r]) [] = map entry c"
    using k by (simp add: m seed_task_def)
  then show ?thesis by (simp only: mergedTasks_fold map_snd_entry)
qed

lemma js_map_ext:
  "distinct (map fst m) \<Longrightarrow> map fst m = map fst m' \<Longrightarrow> map_of m = map_of m' \<Longrightarrow> m = m'"
proof (induction m arbitrary: m')
  case Nil
  then show ?case by simp
next
  case (Cons e m)
  then obtain e' m'' where m': "m' = e' # m''" by (cases m') auto
  obtain k v where e: "e = (k, v)" by (cases e)
  obtain k' v' where e': "e' = (k', v')" by (cases e')
  have kk: "k' = k" and keys: "map fst m = map fst m''"
    using Cons.prems(2) by (simp_all add: m' e e')
  from Cons.prems(3) have "map_of (e # m) k = map_of m' k" by (rule fun_cong)
  then have vv: "v' = v" by (simp add: m' e e' kk)
  have fresh: "k \<notin> set (map fst m)" and d: "distinct (map fst m)"
    using Cons.prems(1) by (simp_all add: e)
  have "map_of m x = map_of m'' x" for x
  proof (cases "x = k")
    case True
    have "map_of m k = None" using fresh by (simp add: map_of_eq_None_iff)
    moreover have "map_of m'' k = None"
      using fresh keys by (metis map_of_eq_None_iff set_map)
    ultimately show ?thesis using True by simp
  next
    case False
    from Cons.prems(3) have "map_of (e # m) x = map_of m' x" by (rule fun_cong)
    with False show ?thesis by (simp add: m' e e' kk)
  qed
  then have "map_of m = map_of m''" by (rule ext)
  from Cons.IH [OF d keys this] show ?case by (simp add: m' e e' kk vv)
qed

lemma set_first_occurrences: "set (first_occurrences xs) = set xs"
  by (induction xs rule: first_occurrences.induct) auto

lemma merge_twice: "mergedTasks (mergedTasks c i) i = mergedTasks c i"
proof -
  let ?m = "fold seed_task (c @ i) []"
  have k: "keyed ?m"
    by (rule fold_seed_keyed) (simp add: keyed_def)
  have d: "distinct (map fst ?m)"
    by (rule fold_seed_distinct) simp
  have ent: "map entry (map snd ?m) = ?m"
    using k by (auto simp: keyed_def entry_def intro!: map_idI)
  have seed: "fold seed_task (mergedTasks c i) [] = ?m"
    using fold_seed_well_formed [where c = "mergedTasks c i" and m = "[]"] merged_well_formed [of c i] ent
    by (simp add: mergedTasks_fold)
  have keys_m: "set (map fst ?m) = set (identifiers c) \<union> set (identifiers i)"
    using fold_seed_keys [of "c @ i" "[]"]
    by (simp add: set_first_occurrences identifiers_append del: fold_append)
  have "filter (\<lambda>k. k \<notin> set (map fst ?m)) (identifiers i) = []"
    unfolding keys_m by (simp add: filter_empty_conv)
  then have keys: "map fst (fold seed_task i ?m) = map fst ?m"
    using fold_seed_keys [of i ?m] by simp
  have "map_of (fold seed_task i ?m) x = map_of ?m x" for x
  proof (cases "x = []")
    case True
    have "x \<notin> fst ` set ?m" using k True by (auto simp: keyed_def)
    then have "map_of ?m x = None" by (simp add: map_of_eq_None_iff)
    moreover have "map_of (fold seed_task i ?m) x = None"
      using \<open>x \<notin> fst ` set ?m\<close> keys by (metis map_of_eq_None_iff set_map)
    ultimately show ?thesis by simp
  next
    case False
    show ?thesis
      using fold_seed_map_of [OF False, of i ?m]
        fold_seed_map_of [OF False, of i "fold seed_task c []"]
      by (simp split: option.splits)
  qed
  then have "map_of (fold seed_task i ?m) = map_of ?m" by (rule ext)
  with keys have "fold seed_task i ?m = ?m"
    by (intro js_map_ext) (simp_all add: fold_seed_distinct d)
  then show ?thesis
    using seed by (simp add: mergedTasks_fold)
qed

lemmas merge_eval = mergedTasks_def mergeIntoMap_def seedTaskMap_def seed_task_def merge_task_def
  Map_new_def Map_has_def Map_values_def remote_task_def anonymous_task_def

text \<open>The size of a merged set is the number of different identifiers, and it is the
  size of the cache exactly when the cache is a set of records with identifiers.\<close>

lemma length_first_occurrences: "length (first_occurrences xs) \<le> length xs"
proof (induction xs rule: first_occurrences.induct)
  case 1
  show ?case by simp
next
  case (2 x xs)
  from le_trans [OF "2.IH" length_filter_le] show ?case by simp
qed

lemma first_occurrences_all:
  "length (first_occurrences xs) = length xs \<Longrightarrow> distinct xs"
proof (induction xs rule: first_occurrences.induct)
  case 1
  show ?case by simp
next
  case (2 x xs)
  have a: "length (first_occurrences (filter (\<lambda>y. y \<noteq> x) xs)) \<le> length (filter (\<lambda>y. y \<noteq> x) xs)"
    by (rule length_first_occurrences)
  have b: "length (filter (\<lambda>y. y \<noteq> x) xs) \<le> length xs" by simp
  from "2.prems" a b have full: "length (filter (\<lambda>y. y \<noteq> x) xs) = length xs"
    and all: "length (first_occurrences (filter (\<lambda>y. y \<noteq> x) xs)) = length (filter (\<lambda>y. y \<noteq> x) xs)"
    by simp_all
  have fresh: "x \<notin> set xs"
  proof
    assume "x \<in> set xs"
    then have "length (filter (\<lambda>y. y \<noteq> x) xs) < length xs"
      by (rule length_filter_less) simp
    with full show False by simp
  qed
  then have same: "filter (\<lambda>y. y \<noteq> x) xs = xs" by (auto simp: filter_id_conv)
  note fresh
  moreover from "2.IH" [OF all] same have "distinct xs" by simp
  ultimately show ?case by simp
qed

lemma length_identifiers: "length (identifiers c) \<le> length c"
  by (induction c) (simp_all add: identifiers_Cons, simp add: identifiers_def)

lemma identifiers_all:
  "length (identifiers c) = length c \<Longrightarrow> list_all (\<lambda>t. truthy (gid t)) c"
proof (induction c)
  case Nil
  show ?case by simp
next
  case (Cons t c)
  have le: "length (identifiers c) \<le> length c" by (rule length_identifiers)
  show ?case
  proof (cases "truthy (gid t)")
    case True
    with Cons show ?thesis by (simp add: identifiers_Cons)
  next
    case False
    with Cons.prems le show ?thesis by (simp add: identifiers_Cons)
  qed
qed

lemma identifiers_gid:
  "list_all (\<lambda>t. truthy (gid t)) c \<Longrightarrow> map Some (identifiers c) = map gid c"
proof (induction c)
  case Nil
  show ?case by (simp add: identifiers_def)
next
  case (Cons t c)
  then obtain k where "gid t = Some k" by (cases "gid t") auto
  with Cons show ?case by (simp add: identifiers_Cons)
qed

lemma merged_length:
  "length (mergedTasks c i) = length (first_occurrences (identifiers c @ identifiers i))"
proof -
  have "list_all (\<lambda>t. truthy (gid t)) (mergedTasks c i)"
    using merged_well_formed [of c i] by (simp add: well_formed_cache_def)
  from identifiers_gid [OF this] have "length (identifiers (mergedTasks c i)) = length (mergedTasks c i)"
    by (metis length_map)
  then show ?thesis by (simp add: merged_identifiers)
qed

lemma merged_length_present:
  assumes r: "r \<in> set c"
  shows "length (mergedTasks c [r]) = length (first_occurrences (identifiers c))"
proof (cases "truthy (gid r)")
  case True
  then obtain k where k: "gid r = Some k" "k \<noteq> []" by (cases "gid r") auto
  with r have "k \<in> set (identifiers c)" by (force simp: set_identifiers)
  with k show ?thesis
    by (simp add: merged_length first_occurrences_append identifiers_Cons, simp add: identifiers_def)
next
  case False
  then show ?thesis
    by (simp add: merged_length identifiers_Cons, simp add: identifiers_def)
qed

lemma merged_size_kept:
  assumes r: "r \<in> set c"
  shows "length (mergedTasks c [r]) = length c \<longleftrightarrow> well_formed_cache c"
proof
  assume "well_formed_cache c"
  with r show "length (mergedTasks c [r]) = length c" by (simp add: merge_present)
next
  assume "length (mergedTasks c [r]) = length c"
  then have eq: "length (first_occurrences (identifiers c)) = length c"
    by (simp add: merged_length_present [OF r])
  have a: "length (first_occurrences (identifiers c)) \<le> length (identifiers c)"
    by (rule length_first_occurrences)
  have b: "length (identifiers c) \<le> length c" by (rule length_identifiers)
  from eq a b have all: "length (identifiers c) = length c"
    and full: "length (first_occurrences (identifiers c)) = length (identifiers c)" by simp_all
  from identifiers_all [OF all] have t: "list_all (\<lambda>t. truthy (gid t)) c" .
  from first_occurrences_all [OF full] have "distinct (identifiers c)" .
  then have "distinct (map Some (identifiers c))" by (rule distinct_map_Some)
  with identifiers_gid [OF t] have "distinct (map gid c)" by simp
  with t show "well_formed_cache c" by (simp add: well_formed_cache_def)
qed

lemma last_with_member: "last_with k ts = Some t \<Longrightarrow> t \<in> set ts"
  by (induction ts) (auto split: option.splits if_splits)

lemma merged_keeps_record:
  assumes "truthy (gid r)"
  shows "r \<in> set (mergedTasks c [r])"
proof -
  from assms obtain k where k: "gid r = Some k" "k \<noteq> []" by (cases "gid r") auto
  then have "last_with k (mergedTasks c [r]) = Some r" by (simp add: merged_last_with)
  then show ?thesis by (rule last_with_member)
qed


section \<open>Properties of the operations\<close>

subsection \<open>Requests change the clock and the log only\<close>


lemma after_requests_refl: "after_requests w w"
  by (simp add: after_requests_def)

lemma after_requests_trans:
  assumes a: "after_requests w w1" and b: "after_requests w1 w2"
  shows "after_requests w w2"
proof -
  have 1: "w1 = w\<lparr>now := now w1, sent := sent w1\<rparr>" using a by (simp add: after_requests_def)
  have 2: "w2 = w1\<lparr>now := now w2, sent := sent w2\<rparr>" using b by (simp add: after_requests_def)
  have "w2 = w\<lparr>now := now w2, sent := sent w2\<rparr>"
    by (subst 2, subst 1) simp
  moreover have "now w \<le> now w2" using a b by (simp add: after_requests_def)
  moreover have "\<exists>new. sent w2 = sent w @ new"
    using a b by (auto simp: after_requests_def)
  ultimately show ?thesis by (simp add: after_requests_def)
qed

lemma fetch_user_after: "fetch_user env tok w = (a, w1) \<Longrightarrow> after_requests w w1"
  by (auto simp: fetch_user_def after_requests_def split: prod.splits)

lemma fetch_tasks_after: "fetch_tasks env tok q w = (a, w1) \<Longrightarrow> after_requests w w1"
  by (auto simp: fetch_tasks_def after_requests_def split: prod.splits)

lemma fetch_tasks_sent: "fetch_tasks env tok q w = (a, w1) \<Longrightarrow> sent w1 = sent w @ [GetTasks tok q]"
  by (auto simp: fetch_tasks_def split: prod.splits)

lemma fetch_user_sent: "fetch_user env tok w = (a, w1) \<Longrightarrow> sent w1 = sent w @ [GetUser tok]"
  by (auto simp: fetch_user_def split: prod.splits)

lemma paginate_after:
  "paginate fuel env tok query rt acc off w = Some (r, w') \<Longrightarrow> after_requests w w'"
proof (induction fuel arbitrary: acc off w)
  case 0
  then show ?case by simp
next
  case (Suc fuel)
  obtain a w1 where f: "fetch_tasks env tok (query off) w = (a, w1)"
    by (cases "fetch_tasks env tok (query off) w")
  have step: "after_requests w w1" using f by (rule fetch_tasks_after)
  from Suc.prems f have "after_requests w1 w'"
    by (auto simp: Let_def after_requests_refl split: promise.splits if_splits option.splits
        dest: Suc.IH)
  with step show ?case by (rule after_requests_trans)
qed


lemma after_requests_same:
  assumes "after_requests w w1"
  shows "storage_available w1 = storage_available w"
    and "asana_token_item w1 = asana_token_item w"
    and "cached_tasks_item w1 = cached_tasks_item w"
    and "last_sync_item w1 = last_sync_item w"
    and "token w1 = token w"
    and "tasks w1 = tasks w"
    and "loading w1 = loading w"
    and "error w1 = error w"
    and "autoRefreshing w1 = autoRefreshing w"
    and "randoms w1 = randoms w"
proof -
  from assms have e: "w1 = w\<lparr>now := now w1, sent := sent w1\<rparr>"
    by (simp add: after_requests_def)
  show "storage_available w1 = storage_available w" by (subst e) simp
  show "asana_token_item w1 = asana_token_item w" by (subst e) simp
  show "cached_tasks_item w1 = cached_tasks_item w" by (subst e) simp
  show "last_sync_item w1 = last_sync_item w" by (subst e) simp
  show "token w1 = token w" by (subst e) simp
  show "tasks w1 = tasks w" by (subst e) simp
  show "loading w1 = loading w" by (subst e) simp
  show "error w1 = error w" by (subst e) simp
  show "autoRefreshing w1 = autoRefreshing w" by (subst e) simp
  show "randoms w1 = randoms w" by (subst e) simp
qed


lemma after_requests_storage:
  assumes "after_requests w w1"
  shows "getTasks w1 = getTasks w" and "getLastSyncDate w1 = getLastSyncDate w"
    and "getToken w1 = getToken w" and "getLastSyncTimestamp w1 = getLastSyncTimestamp w"
  using after_requests_same [OF assms]
  by (simp_all add: getTasks_def getLastSyncDate_def getToken_def getLastSyncTimestamp_def)

lemma after_requests_now: "after_requests w w1 \<Longrightarrow> now w \<le> now w1"
  by (simp add: after_requests_def)

lemma after_requests_sent: "after_requests w w1 \<Longrightarrow> sent w1 = sent w @ requests_since w w1"
  by (auto simp: after_requests_def requests_since_def)

lemma requests_since_trans:
  "after_requests w w1 \<Longrightarrow> after_requests w1 w2 \<Longrightarrow>
     requests_since w w2 = requests_since w w1 @ requests_since w1 w2"
  by (auto simp: after_requests_def requests_since_def)

lemma requests_since_refl: "requests_since w w = []"
  by (simp add: requests_since_def)

lemma fetchUserData_after:
  assumes "fetchUserData env tok w = (r, w1)"
  shows "after_requests w w1" and "requests_since w w1 = [GetUser tok]"
proof -
  obtain a w0 where f: "fetch_user env tok w = (a, w0)"
    by (cases "fetch_user env tok w")
  have "w1 = w0" using assms f
    by (auto simp: fetchUserData_def split: promise.splits if_splits)
  with f show "after_requests w w1" by (simp add: fetch_user_after)
  from f \<open>w1 = w0\<close> show "requests_since w w1 = [GetUser tok]"
    by (simp add: requests_since_def fetch_user_sent)
qed

lemma paginate_requests:
  "paginate fuel env tok query rt acc off w = Some (r, w') \<Longrightarrow>
     \<forall>req \<in> set (requests_since w w'). \<exists>off'. req = GetTasks tok (query off')"
proof (induction fuel arbitrary: acc off w)
  case 0
  then show ?case by simp
next
  case (Suc fuel)
  obtain a w1 where f: "fetch_tasks env tok (query off) w = (a, w1)"
    by (cases "fetch_tasks env tok (query off) w")
  have step: "after_requests w w1" using f by (rule fetch_tasks_after)
  have first: "requests_since w w1 = [GetTasks tok (query off)]"
    using f by (simp add: requests_since_def fetch_tasks_sent)
  show ?case
  proof (cases "w' = w1")
    case True
    with first show ?thesis by auto
  next
    case False
    with Suc.prems f obtain acc' off' where
      rec: "paginate fuel env tok query rt acc' off' w1 = Some (r, w')"
      by (auto simp: Let_def split: promise.splits if_splits option.splits)
    have "after_requests w1 w'" using rec by (rule paginate_after)
    then have "requests_since w w' = requests_since w w1 @ requests_since w1 w'"
      using step by (simp add: requests_since_trans)
    with first Suc.IH [OF rec] show ?thesis by auto
  qed
qed

lemma fetchAssignedTasks_after:
  "fetchAssignedTasks fuel env tok ws uid since w = Some (r, w') \<Longrightarrow> after_requests w w'"
  unfolding fetchAssignedTasks_def by (rule paginate_after)

lemma fetchAssignedTasks_requests:
  assumes "fetchAssignedTasks fuel env tok ws uid since w = Some (r, w')"
  shows "\<forall>req \<in> set (requests_since w w'). is_listing req \<and> completed_since_of req = Some since"
proof
  fix req assume "req \<in> set (requests_since w w')"
  with paginate_requests [OF assms [unfolded fetchAssignedTasks_def]]
  obtain off' where "req = GetTasks tok (assigned_query ws uid since off')" by blast
  then show "is_listing req \<and> completed_since_of req = Some since"
    by (simp add: assigned_query_def)
qed


lemma autoRefreshTasks_quiet:
  assumes run: "autoRefreshTasks fuel env tok w = Some (p, w')"
    and quiet: "\<forall>ts. p = Listed ts \<longrightarrow> ts = []"
  shows "\<exists>w2. after_requests w w2 \<and> (w' = w2 \<or> w' = refresh_done w2)"
proof (cases "tok = []")
  case True
  with run have "w' = w" by (simp add: autoRefreshTasks_def)
  then show ?thesis using after_requests_refl by blast
next
  case tok: False
  show ?thesis
  proof (cases "getLastSyncDate w")
    case None
    with run tok have "w' = refresh_done w"
      by (auto simp: autoRefreshTasks_def refresh_done_def)
    then show ?thesis using after_requests_refl by blast
  next
    case (Some lastSyncDate)
    obtain r1 w1 where u: "fetchUserData env tok w = (r1, w1)"
      by (cases "fetchUserData env tok w")
    have a1: "after_requests w w1" using u by (rule fetchUserData_after)
    show ?thesis
    proof (cases "\<exists>ud ws uid. r1 = Fulfilled ud \<and> first_workspace ud = Some (ws, uid)")
      case False
      with run tok Some u have "w' = refresh_done w1"
        by (auto simp: autoRefreshTasks_def split: promise.splits option.splits)
      with a1 show ?thesis by blast
    next
      case True
      then obtain ud ws uid where r1: "r1 = Fulfilled ud" and fw: "first_workspace ud = Some (ws, uid)"
        by blast
      from run tok Some u r1 fw obtain r2 w2 where
        l: "fetchAssignedTasks fuel env tok ws uid lastSyncDate w1 = Some (r2, w2)"
        by (auto simp: autoRefreshTasks_def split: option.splits)
      have a2: "after_requests w w2"
        using a1 fetchAssignedTasks_after [OF l] by (rule after_requests_trans)
      from run tok Some u r1 fw l quiet have "w' = refresh_done w2"
        by (auto simp: autoRefreshTasks_def split: promise.splits if_splits)
      with a2 show ?thesis by blast
    qed
  qed
qed

lemma autoRefreshTasks_listed:
  assumes run: "autoRefreshTasks fuel env tok w = Some (Listed ts, w')"
  shows "\<exists>cursor w1 w2. getLastSyncDate w = Some cursor \<and> after_requests w w1 \<and> after_requests w1 w2
      \<and> requests_since w w1 = [GetUser tok]
      \<and> (\<forall>req \<in> set (requests_since w1 w2). is_listing req \<and> completed_since_of req = Some cursor)
      \<and> w' = refresh_done (if ts \<noteq> [] then show_and_store (mergedTasks (getTasks w) ts) w2 else w2)"
proof -
  from run have tok: "tok \<noteq> []" by (auto simp: autoRefreshTasks_def split: if_splits)
  from run tok obtain cursor where c: "getLastSyncDate w = Some cursor"
    by (cases "getLastSyncDate w") (auto simp: autoRefreshTasks_def)
  obtain r1 w1 where u: "fetchUserData env tok w = (r1, w1)"
    by (cases "fetchUserData env tok w")
  from run tok c u obtain ud ws uid where
    r1: "r1 = Fulfilled ud" and fw: "first_workspace ud = Some (ws, uid)"
    by (auto simp: autoRefreshTasks_def split: promise.splits option.splits)
  from run tok c u r1 fw obtain r2 w2 where
    l: "fetchAssignedTasks fuel env tok ws uid cursor w1 = Some (r2, w2)"
    by (auto simp: autoRefreshTasks_def split: option.splits)
  from run tok c u r1 fw l have
    "w' = refresh_done (if ts \<noteq> [] then show_and_store (mergedTasks (getTasks w) ts) w2 else w2)"
    by (auto simp: autoRefreshTasks_def split: promise.splits if_splits)
  with c fetchUserData_after [OF u] fetchAssignedTasks_after [OF l] fetchAssignedTasks_requests [OF l]
  show ?thesis by blast
qed


lemma alternative_listings_after:
  assumes "alternative_listings fuel env tok ws since w = Some (p, w')"
  shows "\<exists>w2. after_requests w w2 \<and>
      ((\<exists>e. p = TasksFailed e \<and> w' = tasks_failed env w2)
       \<or> (\<exists>ts. ts \<noteq> [] \<and> (p = ListedForMe ts \<or> p = ListedWithoutDate ts)
             \<and> w' = w2\<lparr>tasks := ts, loading := False\<rparr>)
       \<or> (p = NothingFound \<and> w' = w2\<lparr>loading := False\<rparr>))"
proof -
  from assms obtain r1 w1 where
    p1: "paginate fuel env tok (me_query ws (Some since)) True [] None w = Some (r1, w1)"
    by (auto simp: alternative_listings_def split: option.splits)
  have a1: "after_requests w w1" using p1 by (rule paginate_after)
  show ?thesis
  proof (cases "\<exists>ts. r1 = Fulfilled ts \<and> ts = []")
    case False
    with assms p1 a1 show ?thesis
      by (cases r1) (auto simp: alternative_listings_def)
  next
    case True
    then have r1: "r1 = Fulfilled []" by simp
    from assms p1 r1 obtain r2 w2 where
      p2: "paginate fuel env tok (me_query ws None) False [] None w1 = Some (r2, w2)"
      by (auto simp: alternative_listings_def split: option.splits)
    have a2: "after_requests w w2"
      using a1 paginate_after [OF p2] by (rule after_requests_trans)
    from assms p1 r1 p2 a2 show ?thesis
      by (cases r2) (auto simp: alternative_listings_def split: if_splits)
  qed
qed

lemma fetchTasksForToken_demo:
  "fetchTasksForToken fuel env ''demo'' w =
     Some (DemoMode, show_demo_tasks env (w\<lparr>loading := True, error := None\<rparr>))"
  by (simp add: fetchTasksForToken_def)

lemma fetchTasksWithLookback_demo:
  "fetchTasksWithLookback fuel env ''demo'' since w =
     Some (DemoMode, show_demo_tasks env (w\<lparr>loading := True, error := None\<rparr>))"
  by (simp add: fetchTasksWithLookback_def)

lemma lookup_phase_after:
  assumes "lookup_phase env tok w = (r, w1)"
  shows "after_requests w w1" and "requests_since w w1 = [GetUser tok]"
proof -
  obtain a w0 where f: "fetch_user env tok w = (a, w0)"
    by (cases "fetch_user env tok w")
  have "w1 = w0" using assms f
    by (auto simp: lookup_phase_def split: promise.splits if_splits)
  with f show "after_requests w w1" by (simp add: fetch_user_after)
  from f \<open>w1 = w0\<close> show "requests_since w w1 = [GetUser tok]"
    by (simp add: requests_since_def fetch_user_sent)
qed

lemma fetchTasksForToken_unfold:
  "tok \<noteq> ''demo'' \<Longrightarrow> fetchTasksForToken fuel env tok w =
     (case lookup_phase env tok (w\<lparr>loading := True, error := None\<rparr>) of
        (Inl e, w1) \<Rightarrow> Some (Failed e, fetch_failed env e w1)
      | (Inr None, w1) \<Rightarrow> Some (Failed no_workspaces_error, fetch_failed env no_workspaces_error w1)
      | (Inr (Some (workspace, userId)), w1) \<Rightarrow>
          (case fetchAssignedTasks fuel env tok workspace userId
                  (case getLastSyncDate w1 of Some date \<Rightarrow> date
                   | None \<Rightarrow> getThirtyDaysAgoISOString env w1) w1 of
             None \<Rightarrow> None
           | Some (Rejected e, w2) \<Rightarrow> Some (TasksFailed e, tasks_failed env w2)
           | Some (Fulfilled ts, w2) \<Rightarrow>
               if ts \<noteq> [] then
                 Some (Listed ts, (show_and_store (mergedTasks (getTasks w) ts) w2)\<lparr>loading := False\<rparr>)
               else if getTasks w \<noteq> [] then
                 Some (UsedCache, w2\<lparr>tasks := getTasks w, loading := False\<rparr>)
               else alternative_listings fuel env tok workspace
                      (case getLastSyncDate w1 of Some date \<Rightarrow> date
                       | None \<Rightarrow> getThirtyDaysAgoISOString env w1) w2))"
  by (auto simp: fetchTasksForToken_def lookup_phase_def Let_def mergedTasks_def getTasks_def
      split: prod.splits promise.splits option.splits)


lemma refresh_done_fields:
  "persisted (refresh_done w) = persisted w" "tasks (refresh_done w) = tasks w"
  "error (refresh_done w) = error w" "now (refresh_done w) = now w"
  "sent (refresh_done w) = sent w" "last_sync_item (refresh_done w) = last_sync_item w"
  "cached_tasks_item (refresh_done w) = cached_tasks_item w"
  by (simp_all add: refresh_done_def persisted_def)


subsection \<open>The successful fetch\<close>


lemma show_and_store_fields:
  "tasks (show_and_store ts w) = ts"
  "now (show_and_store ts w) = now w"
  "sent (show_and_store ts w) = sent w"
  "asana_token_item (show_and_store ts w) = asana_token_item w"
  "token (show_and_store ts w) = token w"
  "error (show_and_store ts w) = error w"
  "storage_available (show_and_store ts w) = storage_available w"
  by (simp_all add: show_and_store_def saveTasks_def saveLastSyncDate_def Let_def)

lemma show_and_store_items:
  "storage_available w \<Longrightarrow>
     cached_tasks_item (show_and_store ts w) = Some \<lparr>cache_tasks = ts, timestamp = now w\<rparr>"
  "storage_available w \<Longrightarrow> last_sync_item (show_and_store ts w) = Some (now w)"
  by (simp_all add: show_and_store_def saveTasks_def saveLastSyncDate_def Let_def)

lemma started_fields:
  "persisted (started w) = persisted w" "now (started w) = now w" "sent (started w) = sent w"
  "tasks (started w) = tasks w" "token (started w) = token w"
  "getTasks (started w) = getTasks w" "getLastSyncDate (started w) = getLastSyncDate w"
  "storage_available (started w) = storage_available w" "randoms (started w) = randoms w"
  "requests_since (started w) w' = requests_since w w'"
  by (simp_all add: started_def persisted_def getTasks_def getLastSyncDate_def requests_since_def)

lemma fetchTasksForToken_listed:
  assumes run: "fetchTasksForToken fuel env tok w = Some (Listed ts, w')"
  shows "\<exists>w1 w2. after_requests (started w) w1 \<and> after_requests w1 w2
      \<and> requests_since w w1 = [GetUser tok]
      \<and> (\<forall>req \<in> set (requests_since w1 w2). is_listing req \<and>
            completed_since_of req =
              Some (case getLastSyncDate w of Some date \<Rightarrow> date | None \<Rightarrow> days_before env 30 (now w1)))
      \<and> ts \<noteq> []
      \<and> w' = (show_and_store (mergedTasks (getTasks w) ts) w2)\<lparr>loading := False\<rparr>"
proof -
  have demo: "tok \<noteq> ''demo''"
    using run by (auto simp: fetchTasksForToken_def)
  obtain r1 w1 where l: "lookup_phase env tok (started w) = (r1, w1)"
    by (cases "lookup_phase env tok (started w)")
  from run demo l obtain ws uid where r1: "r1 = Inr (Some (ws, uid))"
    by (cases r1) (auto simp: fetchTasksForToken_unfold started_def split: option.splits)
  let ?since = "case getLastSyncDate w1 of Some date \<Rightarrow> date | None \<Rightarrow> getThirtyDaysAgoISOString env w1"
  from run demo l r1 obtain r2 w2 where
    f: "fetchAssignedTasks fuel env tok ws uid ?since w1 = Some (r2, w2)"
    by (auto simp: fetchTasksForToken_unfold started_def split: option.splits)
  have np: "\<And>p u. alternative_listings fuel env tok ws ?since w2 = Some (p, u) \<Longrightarrow> p \<noteq> Listed ts"
    by (drule alternative_listings_after) auto
  from run demo l r1 f np have ts: "ts \<noteq> []" and r2: "r2 = Fulfilled ts"
    and w': "w' = (show_and_store (mergedTasks (getTasks w) ts) w2)\<lparr>loading := False\<rparr>"
    by (auto simp: fetchTasksForToken_unfold started_def split: promise.splits if_splits)
  have a1: "after_requests (started w) w1" and q1: "requests_since w w1 = [GetUser tok]"
    using lookup_phase_after [OF l] by (simp_all add: started_fields)
  have a2: "after_requests w1 w2" using f by (rule fetchAssignedTasks_after)
  have gl: "getLastSyncDate w1 = getLastSyncDate w"
    using after_requests_storage(2) [OF a1] by (simp add: started_fields)
  have "\<forall>req \<in> set (requests_since w1 w2). is_listing req \<and>
      completed_since_of req =
        Some (case getLastSyncDate w of Some date \<Rightarrow> date | None \<Rightarrow> days_before env 30 (now w1))"
    using fetchAssignedTasks_requests [OF f]
    by (simp add: gl getThirtyDaysAgoISOString_def cong: option.case_cong)
  with a1 a2 q1 ts w' show ?thesis by blast
qed


lemmas storage_eval = getToken_def saveToken_def clearToken_def getTasks_def saveTasks_def
  getLastSyncDate_def saveLastSyncDate_def getLastSyncTimestamp_def clearTasks_def

lemmas example_eval = session_start_def stored_session_def running_session_def ok_response_def
  answering_def unreachable_def listing_unreachable_def failed_to_fetch_def

lemmas network_eval = fetch_user_def fetch_tasks_def fetchUserData_def fetchAssignedTasks_def
  assigned_query_def me_query_def tasksPerPage_def first_workspace_def

lemma refresh_run:
  "autoRefreshTasks (Suc 0) (answering [remote_task ''3'' ''C'' (Some 30)]) ''1/1200''
     (running_session 1000000 [remote_task ''1'' ''A'' (Some 10)] 400000)
   = Some (Listed [remote_task ''3'' ''C'' (Some 30)],
       (running_session 1000000 [remote_task ''1'' ''A'' (Some 10)] 400000)
         \<lparr>cached_tasks_item :=
            Some \<lparr>cache_tasks = [remote_task ''1'' ''A'' (Some 10), remote_task ''3'' ''C'' (Some 30)],
                  timestamp = 1000012\<rparr>,
          last_sync_item := Some 1000012,
          tasks := [remote_task ''1'' ''A'' (Some 10), remote_task ''3'' ''C'' (Some 30)],
          now := 1000012,
          sent := [GetUser ''1/1200'',
                   GetTasks ''1/1200'' (assigned_query ''w1'' ''u1'' 400000 None)]\<rparr>)"
  by (simp add: autoRefreshTasks_def storage_eval example_eval network_eval refresh_done_def
      show_and_store_def Let_def merge_eval)



subsection \<open>Mounting and connecting\<close>

lemma mountEffect_started:
  assumes "snd (mountEffect w) = Some tok"
  shows "getToken w = Some tok \<and> getTasks w \<noteq> []
       \<and> (\<exists>captured. getLastSyncTimestamp w = Some captured \<and> captured \<noteq> 0
            \<and> isCacheStale (now w) captured)"
  using assms
  by (auto simp: mountEffect_def Let_def storage_eval split: option.splits if_splits)




lemma trim_blank: "list_all white_space s \<Longrightarrow> trim s = []"
  by (auto simp: trim_def list_all_iff dest: set_dropWhileD)

lemma show_demo_tasks_fields:
  "length (tasks (show_demo_tasks env w)) = 15"
  "list_all completed (tasks (show_demo_tasks env w))"
  "persisted (show_demo_tasks env w) = persisted w"
  "sent (show_demo_tasks env w) = sent w"
  "now (show_demo_tasks env w) = now w + 1000"
  "token (show_demo_tasks env w) = token w"
  "error (show_demo_tasks env w) = error w"
  by (simp_all add: show_demo_tasks_def generateMockTasks_def persisted_def mock_task_def
      list_all_iff)

lemma show_demo_tasks_mock:
  "tasks (show_demo_tasks env w) = fst (generateMockTasks env 15 (w\<lparr>now := now w + 1000\<rparr>))"
  by (simp add: show_demo_tasks_def generateMockTasks_def)

lemma handleAsanaConnect_demo:
  "token (handleAsanaConnect ''demo'' w) = Some ''demo''"
  "asana_token_item (handleAsanaConnect ''demo'' w) = asana_token_item w"
  "sent (handleAsanaConnect ''demo'' w) = sent w"
  "now (handleAsanaConnect ''demo'' w) = now w"
  "getTasks (handleAsanaConnect ''demo'' w) = []"
  "getLastSyncDate (handleAsanaConnect ''demo'' w) = None"
  by (simp_all add: handleAsanaConnect_def Let_def storage_eval)

lemma connect_demo:
  "connect fuel env ''demo'' w =
     Some (DemoMode, show_demo_tasks env (started (handleAsanaConnect ''demo'' w)))"
  by (simp add: connect_def tokenEffect_def handleAsanaConnect_demo fetchTasksForToken_def
      started_def)

subsection \<open>Placeholders, failures and the fetch with a lookback date\<close>


lemma generateMockTasks_length: "length (fst (generateMockTasks env n w)) = n"
  by (simp add: generateMockTasks_def)

lemma generateMockTasks_record:
  assumes "i < n"
  shows "fst (generateMockTasks env n w) ! i =
     \<lparr>gid = None,
      id' = Some (''task-'' @ decimal (Suc i)),
      name = taskTypes ! (Suc i mod 7) @ '' Task '' @ decimal (Suc i),
      completed_at = Some (days_before env (random_days env (randoms w + i)) (now w)),
      resource_type = Some ''task'',
      completed = True\<rparr>"
proof -
  have "[1..<n + 1] ! i = Suc i"
    using assms nth_upt [of 1 i "n + 1"] by (simp del: upt_Suc)
  with assms show ?thesis
    by (simp add: generateMockTasks_def mock_task_def taskTypes_def del: upt_Suc)
qed

lemma generateMockTasks_ids:
  "map id' (fst (generateMockTasks env n w)) = map (\<lambda>i. Some (''task-'' @ decimal i)) [1..<n + 1]"
  by (simp add: generateMockTasks_def mock_task_def del: upt_Suc)

lemma generateMockTasks_reads:
  "now v = now w \<Longrightarrow> randoms v = randoms w \<Longrightarrow>
     fst (generateMockTasks env n v) = fst (generateMockTasks env n w)"
  by (simp add: generateMockTasks_def)

lemma show_placeholders_fields:
  "length (tasks (show_placeholders env w)) = 20"
  "persisted (show_placeholders env w) = persisted w"
  "error (show_placeholders env w) = error w"
  "token (show_placeholders env w) = token w"
  "now (show_placeholders env w) = now w"
  "sent (show_placeholders env w) = sent w"
  by (simp_all add: show_placeholders_def generateMockTasks_def persisted_def)

lemma show_placeholders_mock:
  "tasks (show_placeholders env w) = fst (generateMockTasks env 20 w)"
  by (simp add: show_placeholders_def generateMockTasks_def)

lemma fetch_failed_fields:
  "error (fetch_failed env e w) = Some (classify (message e))"
  "length (tasks (fetch_failed env e w)) = 20"
  "persisted (fetch_failed env e w) = persisted w"
  "token (fetch_failed env e w) = token w"
  "now (fetch_failed env e w) = now w"
  "sent (fetch_failed env e w) = sent w"
  by (simp_all add: fetch_failed_def show_placeholders_fields persisted_def)
    (simp_all add: show_placeholders_def generateMockTasks_def)

lemma fetch_failed_mock:
  "tasks (fetch_failed env e w) = fst (generateMockTasks env 20 w)"
  by (simp add: fetch_failed_def show_placeholders_def generateMockTasks_def)

lemma tasks_failed_fields:
  "error (tasks_failed env w) = error w"
  "length (tasks (tasks_failed env w)) = 20"
  "persisted (tasks_failed env w) = persisted w"
  "token (tasks_failed env w) = token w"
  "now (tasks_failed env w) = now w"
  "sent (tasks_failed env w) = sent w"
  by (simp_all add: tasks_failed_def show_placeholders_fields persisted_def)
    (simp_all add: show_placeholders_def generateMockTasks_def)

lemma tasks_failed_mock:
  "tasks (tasks_failed env w) = fst (generateMockTasks env 20 w)"
  by (simp add: tasks_failed_def show_placeholders_def generateMockTasks_def)

lemma alternative_listings_paths:
  "alternative_listings fuel env tok ws since w = Some (p, u) \<Longrightarrow>
     (\<exists>e. p = TasksFailed e) \<or> (\<exists>ts. p = ListedForMe ts \<or> p = ListedWithoutDate ts)
     \<or> p = NothingFound"
  by (drule alternative_listings_after) auto

lemma fetchTasksForToken_failed:
  assumes run: "fetchTasksForToken fuel env tok w = Some (Failed e, w')"
  shows "\<exists>w1. after_requests (started w) w1 \<and> w' = fetch_failed env e w1"
proof -
  have demo: "tok \<noteq> ''demo''"
    using run by (auto simp: fetchTasksForToken_def)
  obtain r1 w1 where l: "lookup_phase env tok (started w) = (r1, w1)"
    by (cases "lookup_phase env tok (started w)")
  have a1: "after_requests (started w) w1" using l by (rule lookup_phase_after)
  show ?thesis
  proof (cases r1)
    case (Inl e1)
    with run demo l have "w' = fetch_failed env e w1"
      by (auto simp: fetchTasksForToken_unfold started_def)
    with a1 show ?thesis by blast
  next
    case (Inr found)
    show ?thesis
    proof (cases found)
      case None
      with run demo l Inr have "w' = fetch_failed env e w1"
        by (auto simp: fetchTasksForToken_unfold started_def)
      with a1 show ?thesis by blast
    next
      case (Some pair)
      obtain ws uid where pair: "pair = (ws, uid)" by (cases pair)
      let ?since = "case getLastSyncDate w1 of Some date \<Rightarrow> date | None \<Rightarrow> getThirtyDaysAgoISOString env w1"
      from run demo l Inr Some pair have False
        by (auto simp: fetchTasksForToken_unfold started_def
            split: option.splits promise.splits if_splits dest: alternative_listings_paths)
      then show ?thesis ..
    qed
  qed
qed

lemma fetchTasksForToken_tasks_failed:
  assumes run: "fetchTasksForToken fuel env tok w = Some (TasksFailed e, w')"
  shows "\<exists>w2. after_requests (started w) w2 \<and> w' = tasks_failed env w2"
proof -
  have demo: "tok \<noteq> ''demo''"
    using run by (auto simp: fetchTasksForToken_def)
  obtain r1 w1 where l: "lookup_phase env tok (started w) = (r1, w1)"
    by (cases "lookup_phase env tok (started w)")
  have a1: "after_requests (started w) w1" using l by (rule lookup_phase_after)
  from run demo l obtain ws uid where r1: "r1 = Inr (Some (ws, uid))"
    by (cases r1) (auto simp: fetchTasksForToken_unfold started_def split: option.splits)
  let ?since = "case getLastSyncDate w1 of Some date \<Rightarrow> date | None \<Rightarrow> getThirtyDaysAgoISOString env w1"
  from run demo l r1 obtain r2 w2 where
    f: "fetchAssignedTasks fuel env tok ws uid ?since w1 = Some (r2, w2)"
    by (auto simp: fetchTasksForToken_unfold started_def split: option.splits)
  have a2: "after_requests (started w) w2"
    using a1 fetchAssignedTasks_after [OF f] by (rule after_requests_trans)
  show ?thesis
  proof (cases "alternative_listings fuel env tok ws ?since w2 = Some (TasksFailed e, w')")
    case True
    from alternative_listings_after [OF True] obtain w3 where
      "after_requests w2 w3" and "w' = tasks_failed env w3" by auto
    with a2 show ?thesis using after_requests_trans by blast
  next
    case False
    with run demo l r1 f have "w' = tasks_failed env w2"
      by (auto simp: fetchTasksForToken_unfold started_def split: promise.splits if_splits)
    with a2 show ?thesis by blast
  qed
qed

lemma fetchTasksWithLookback_unfold:
  "tok \<noteq> ''demo'' \<Longrightarrow> fetchTasksWithLookback fuel env tok since w =
     (case lookup_phase env tok (started w) of
        (Inl e, w1) \<Rightarrow> Some (Failed e, connect_failed e w1)
      | (Inr None, w1) \<Rightarrow>
          Some (NoWorkspaces,
                w1\<lparr>error := Some ''No workspaces found in your Asana account'', loading := False\<rparr>)
      | (Inr (Some (workspace, userId)), w1) \<Rightarrow>
          (case fetchAssignedTasks fuel env tok workspace userId since w1 of
             None \<Rightarrow> None
           | Some (Rejected e, w2) \<Rightarrow>
               Some (TasksFailed e,
                     w2\<lparr>error := Some (''Failed to fetch tasks: '' @ error_toString e),
                        loading := False\<rparr>)
           | Some (Fulfilled ts, w2) \<Rightarrow>
               if ts \<noteq> [] then Some (Listed ts, (show_and_store ts w2)\<lparr>loading := False\<rparr>)
               else Some (Listed ts, w2\<lparr>tasks := [], loading := False\<rparr>)))"
  by (auto simp: fetchTasksWithLookback_def lookup_phase_def Let_def started_def
      split: prod.splits promise.splits option.splits)

text \<open>What \<^verbatim>\<open>fetchTasksWithLookback\<close> does to the state, by the way it went.\<close>

lemma fetchTasksWithLookback_result:
  assumes run: "fetchTasksWithLookback fuel env tok since w = Some (p, w')" and demo: "tok \<noteq> ''demo''"
  shows "\<exists>w2. after_requests (started w) w2
      \<and> (\<forall>req \<in> set (requests_since w w2). \<forall>bound. completed_since_of req = Some bound \<longrightarrow> bound = since)
      \<and> ((\<exists>e. p = Failed e \<and> w' = connect_failed e w2)
         \<or> (p = NoWorkspaces \<and>
              w' = w2\<lparr>error := Some ''No workspaces found in your Asana account'', loading := False\<rparr>)
         \<or> (\<exists>e. p = TasksFailed e \<and>
              w' = w2\<lparr>error := Some (''Failed to fetch tasks: '' @ error_toString e), loading := False\<rparr>)
         \<or> (\<exists>ts. p = Listed ts \<and> ts \<noteq> [] \<and> w' = (show_and_store ts w2)\<lparr>loading := False\<rparr>)
         \<or> (p = Listed [] \<and> w' = w2\<lparr>tasks := [], loading := False\<rparr>))"
proof -
  obtain r1 w1 where l: "lookup_phase env tok (started w) = (r1, w1)"
    by (cases "lookup_phase env tok (started w)")
  have a1: "after_requests (started w) w1" and q1: "requests_since w w1 = [GetUser tok]"
    using lookup_phase_after [OF l] by (simp_all add: started_fields)
  show ?thesis
  proof (cases "\<exists>ws uid. r1 = Inr (Some (ws, uid))")
    case False
    with run demo l have
      "(\<exists>e. p = Failed e \<and> w' = connect_failed e w1)
       \<or> (p = NoWorkspaces \<and>
            w' = w1\<lparr>error := Some ''No workspaces found in your Asana account'', loading := False\<rparr>)"
      by (cases r1) (auto simp: fetchTasksWithLookback_unfold split: option.splits)
    with a1 q1 show ?thesis by (intro exI [of _ w1]) auto
  next
    case True
    then obtain ws uid where r1: "r1 = Inr (Some (ws, uid))" by blast
    from run demo l r1 obtain r2 w2 where
      f: "fetchAssignedTasks fuel env tok ws uid since w1 = Some (r2, w2)"
      by (auto simp: fetchTasksWithLookback_unfold split: option.splits)
    have a2: "after_requests w1 w2" using f by (rule fetchAssignedTasks_after)
    have a: "after_requests (started w) w2" using a1 a2 by (rule after_requests_trans)
    have q: "requests_since w w2 = GetUser tok # requests_since w1 w2"
      using requests_since_trans [OF a1 a2] q1 by (simp add: started_fields)
    have bounds: "\<forall>req \<in> set (requests_since w w2). \<forall>bound.
        completed_since_of req = Some bound \<longrightarrow> bound = since"
      unfolding q using fetchAssignedTasks_requests [OF f] by auto
    from run demo l r1 f have
      "(\<exists>e. p = TasksFailed e \<and>
            w' = w2\<lparr>error := Some (''Failed to fetch tasks: '' @ error_toString e), loading := False\<rparr>)
       \<or> (\<exists>ts. p = Listed ts \<and> ts \<noteq> [] \<and> w' = (show_and_store ts w2)\<lparr>loading := False\<rparr>)
       \<or> (p = Listed [] \<and> w' = w2\<lparr>tasks := [], loading := False\<rparr>)"
      by (cases r2) (auto simp: fetchTasksWithLookback_unfold split: if_splits)
    with a bounds show ?thesis by (intro exI [of _ w2]) auto
  qed
qed

subsection \<open>Clearing the cache and the full history\<close>

lemma clearTasks_fields:
  "getTasks (clearTasks w) = []" "getLastSyncDate (clearTasks w) = None"
  "asana_token_item (clearTasks w) = asana_token_item w" "token (clearTasks w) = token w"
  "tasks (clearTasks w) = tasks w" "sent (clearTasks w) = sent w" "now (clearTasks w) = now w"
  "storage_available (clearTasks w) = storage_available w"
  "error (clearTasks w) = error w" "randoms (clearTasks w) = randoms w"
  "clearTasks (clearTasks w) = clearTasks w"
  by (simp_all add: storage_eval)

lemma cleared_stays:
  assumes "after_requests (started (clearTasks w)) w2"
  shows "getTasks w2 = []" and "getLastSyncDate w2 = None"
    and "asana_token_item w2 = asana_token_item w" and "token w2 = token w"
    and "tasks w2 = tasks w" and "storage_available w2 = storage_available w"
    and "requests_since w w2 = requests_since (started (clearTasks w)) w2"
  using after_requests_storage [OF assms] after_requests_same [OF assms]
  by (simp_all add: started_fields clearTasks_fields requests_since_def)
    (simp_all add: started_def clearTasks_fields)


lemma loading_storage:
  "getTasks (w\<lparr>loading := b\<rparr>) = getTasks w"
  "getLastSyncDate (w\<lparr>loading := b\<rparr>) = getLastSyncDate w"
  "getTasks (w\<lparr>error := e\<rparr>) = getTasks w"
  "getLastSyncDate (w\<lparr>error := e\<rparr>) = getLastSyncDate w"
  "getTasks (w\<lparr>tasks := ts\<rparr>) = getTasks w"
  "getLastSyncDate (w\<lparr>tasks := ts\<rparr>) = getLastSyncDate w"
  by (simp_all add: storage_eval)

lemma connect_failed_fields:
  "error (connect_failed e w) = Some (''Failed to connect to Asana: '' @ error_toString e)"
  "tasks (connect_failed e w) = tasks w" "sent (connect_failed e w) = sent w"
  "now (connect_failed e w) = now w" "token (connect_failed e w) = token w"
  "asana_token_item (connect_failed e w) = asana_token_item w"
  "getTasks (connect_failed e w) = getTasks w"
  "getLastSyncDate (connect_failed e w) = getLastSyncDate w"
  by (simp_all add: connect_failed_def storage_eval)

lemma show_demo_tasks_storage:
  "getTasks (show_demo_tasks env w) = getTasks w"
  "getLastSyncDate (show_demo_tasks env w) = getLastSyncDate w"
  "asana_token_item (show_demo_tasks env w) = asana_token_item w"
  by (simp_all add: show_demo_tasks_def generateMockTasks_def storage_eval)


subsection \<open>The demo mode\<close>

lemma handleAsanaConnect_demo_persisted:
  "cached_tasks_item w = None \<Longrightarrow> last_sync_item w = None \<Longrightarrow>
     persisted (handleAsanaConnect ''demo'' w) = persisted w"
  by (simp add: handleAsanaConnect_def Let_def storage_eval persisted_def)

lemma fetchAllHistoricalTasks_demo:
  "token w = Some ''demo'' \<Longrightarrow>
     fetchAllHistoricalTasks fuel env w =
       Some (DemoMode, show_demo_tasks env (started (clearTasks w)))"
  by (simp add: fetchAllHistoricalTasks_def Let_def fetchTasksWithLookback_demo started_def)

lemma generateMockTasks_completed: "list_all completed (fst (generateMockTasks env n w))"
  by (simp add: generateMockTasks_def mock_task_def list_all_iff)

lemma show_demo_tasks_record:
  assumes "i < 15"
  shows "tasks (show_demo_tasks env w) ! i =
     \<lparr>gid = None,
      id' = Some (''task-'' @ decimal (Suc i)),
      name = taskTypes ! (Suc i mod 7) @ '' Task '' @ decimal (Suc i),
      completed_at = Some (days_before env (random_days env (randoms w + i)) (now w + 1000)),
      resource_type = Some ''task'',
      completed = True\<rparr>"
  using generateMockTasks_record [OF assms, of env "w\<lparr>now := now w + 1000\<rparr>"]
  by (simp add: show_demo_tasks_mock)

lemma show_demo_tasks_state:
  "loading (show_demo_tasks env w) = False"
  "randoms (show_demo_tasks env w) = randoms w + 15"
  "storage_available (show_demo_tasks env w) = storage_available w"
  by (simp_all add: show_demo_tasks_def generateMockTasks_def)

lemma show_demo_tasks_cache:
  "show_demo_tasks env (w\<lparr>cached_tasks_item := c, last_sync_item := s\<rparr>) =
     (show_demo_tasks env w)\<lparr>cached_tasks_item := c, last_sync_item := s\<rparr>"
  by (simp add: show_demo_tasks_def generateMockTasks_def)

lemma show_demo_tasks_reads:
  "now v = now w \<Longrightarrow> randoms v = randoms w \<Longrightarrow>
     tasks (show_demo_tasks env v) = tasks (show_demo_tasks env w)"
  by (simp add: show_demo_tasks_def generateMockTasks_def)

lemma show_demo_tasks_recent:
  assumes draws: "\<forall>k. random_days env k < 30"
    and days: "\<forall>n t. n < 30 \<longrightarrow> days_before env n t \<le> t \<and> t - 30 * 86400000 \<le> days_before env n t"
    and t: "t \<in> set (tasks (show_demo_tasks env w))"
  shows "\<exists>c. completed_at t = Some c \<and> now w + 1000 - 30 * 86400000 \<le> c \<and> c \<le> now w + 1000"
proof -
  from t obtain i where i: "i < 15" and ti: "t = tasks (show_demo_tasks env w) ! i"
    by (auto simp: in_set_conv_nth show_demo_tasks_fields)
  have c: "completed_at t = Some (days_before env (random_days env (randoms w + i)) (now w + 1000))"
    by (simp add: ti show_demo_tasks_record [OF i])
  from draws have "random_days env (randoms w + i) < 30" by simp
  with days have "days_before env (random_days env (randoms w + i)) (now w + 1000) \<le> now w + 1000
      \<and> now w + 1000 - 30 * 86400000 \<le> days_before env (random_days env (randoms w + i)) (now w + 1000)"
    by blast
  with c show ?thesis by simp
qed

lemma stored_token_not_demo:
  assumes "asana_token_item w \<noteq> Some ''demo''"
  shows "asana_token_item (handleAsanaConnect newToken w) \<noteq> Some ''demo''"
    and "asana_token_item (snd (handleConnect form w)) \<noteq> Some ''demo''"
    and "asana_token_item (snd (handleDemoConnect form w)) \<noteq> Some ''demo''"
    and "asana_token_item (handleDisconnect w) \<noteq> Some ''demo''"
  using assms
  by (auto simp: handleAsanaConnect_def handleConnect_def handleDemoConnect_def handleDisconnect_def
      Let_def storage_eval)

lemma mountEffect_token: "snd (mountEffect w) = Some tok \<Longrightarrow> asana_token_item w = Some tok"
  using mountEffect_started [of w tok] by (auto simp: getToken_def split: if_splits)

text \<open>No fetch writes the token.\<close>

lemma fetchTasksForToken_token_item:
  assumes run: "fetchTasksForToken fuel env tok w = Some (p, w')"
  shows "asana_token_item w' = asana_token_item w"
proof (cases "tok = ''demo''")
  case True
  with run show ?thesis
    by (auto simp: fetchTasksForToken_demo show_demo_tasks_storage)
next
  case demo: False
  obtain r1 w1 where l: "lookup_phase env tok (started w) = (r1, w1)"
    by (cases "lookup_phase env tok (started w)")
  have a1: "after_requests (started w) w1" using l by (rule lookup_phase_after)
  have k1: "asana_token_item w1 = asana_token_item w"
    using after_requests_same(2) [OF a1] by (simp add: started_def)
  have failed: "asana_token_item (fetch_failed env e v) = asana_token_item v" for e v
    using fetch_failed_fields(3) [of env e v] by (simp add: persisted_def)
  have tfailed: "asana_token_item (tasks_failed env v) = asana_token_item v" for v
    using tasks_failed_fields(3) [of env v] by (simp add: persisted_def)
  show ?thesis
  proof (cases "\<exists>ws uid. r1 = Inr (Some (ws, uid))")
    case False
    with run demo l have "\<exists>e. w' = fetch_failed env e w1"
      by (cases r1) (auto simp: fetchTasksForToken_unfold started_def split: option.splits)
    with k1 failed show ?thesis by auto
  next
    case True
    then obtain ws uid where r1: "r1 = Inr (Some (ws, uid))" by blast
    let ?since = "case getLastSyncDate w1 of Some date \<Rightarrow> date | None \<Rightarrow> getThirtyDaysAgoISOString env w1"
    from run demo l r1 obtain r2 w2 where
      f: "fetchAssignedTasks fuel env tok ws uid ?since w1 = Some (r2, w2)"
      by (auto simp: fetchTasksForToken_unfold started_def split: option.splits)
    have a2: "after_requests w1 w2" using f by (rule fetchAssignedTasks_after)
    have k2: "asana_token_item w2 = asana_token_item w"
      using after_requests_same(2) [OF a2] k1 by simp
    show ?thesis
    proof (cases "alternative_listings fuel env tok ws ?since w2 = Some (p, w')")
      case True
      from alternative_listings_after [OF True] obtain w3 where
        a3: "after_requests w2 w3"
        and w': "w' = tasks_failed env w3 \<or> (\<exists>ts. w' = w3\<lparr>tasks := ts, loading := False\<rparr>)
            \<or> w' = w3\<lparr>loading := False\<rparr>"
        by auto
      have "asana_token_item w3 = asana_token_item w"
        using after_requests_same(2) [OF a3] k2 by simp
      with w' tfailed show ?thesis by auto
    next
      case False
      with run demo l r1 f have
        "w' = tasks_failed env w2
         \<or> (\<exists>ts. w' = (show_and_store ts w2)\<lparr>loading := False\<rparr>)
         \<or> (\<exists>ts. w' = w2\<lparr>tasks := ts, loading := False\<rparr>)"
        by (auto simp: fetchTasksForToken_unfold started_def split: promise.splits if_splits)
      with k2 tfailed show ?thesis by (auto simp: show_and_store_fields)
    qed
  qed
qed

lemma autoRefreshTasks_token_item:
  assumes run: "autoRefreshTasks fuel env tok w = Some (p, w')"
  shows "asana_token_item w' = asana_token_item w"
proof (cases "\<forall>ts. p = Listed ts \<longrightarrow> ts = []")
  case True
  from autoRefreshTasks_quiet [OF run True] obtain w2 where
    a: "after_requests w w2" and w': "w' = w2 \<or> w' = refresh_done w2" by blast
  from w' after_requests_same(2) [OF a] show ?thesis by (auto simp: refresh_done_def)
next
  case False
  then obtain ts where p: "p = Listed ts" and ne: "ts \<noteq> []" by blast
  from autoRefreshTasks_listed [OF run [unfolded p]] ne obtain w1 w2 where
    a1: "after_requests w w1" and a2: "after_requests w1 w2"
    and w': "w' = refresh_done (show_and_store (mergedTasks (getTasks w) ts) w2)"
    by auto
  from after_requests_same(2) [OF a1] after_requests_same(2) [OF a2] show ?thesis
    by (simp add: w' refresh_done_def show_and_store_fields)
qed

lemma fetchAllHistoricalTasks_token_item:
  assumes run: "fetchAllHistoricalTasks fuel env w = Some (p, w')"
  shows "asana_token_item w' = asana_token_item w"
proof (cases "\<exists>tok. token w = Some tok \<and> tok \<noteq> []")
  case False
  with run have "w' = w"
    by (auto simp: fetchAllHistoricalTasks_def split: option.splits if_splits)
  then show ?thesis by simp
next
  case True
  then obtain tok where "token w = Some tok" and "tok \<noteq> []" by blast
  with run obtain since where
    look: "fetchTasksWithLookback fuel env tok since (clearTasks w) = Some (p, w')"
    by (auto simp: fetchAllHistoricalTasks_def Let_def)
  show ?thesis
  proof (cases "tok = ''demo''")
    case True
    with look show ?thesis
      by (auto simp: fetchTasksWithLookback_demo show_demo_tasks_storage clearTasks_fields)
  next
    case demo: False
    from fetchTasksWithLookback_result [OF look demo] obtain w2 where
      a: "after_requests (started (clearTasks w)) w2"
      and ways: "(\<exists>e. w' = connect_failed e w2)
         \<or> (\<exists>m. w' = w2\<lparr>error := m, loading := False\<rparr>)
         \<or> (\<exists>ts. w' = (show_and_store ts w2)\<lparr>loading := False\<rparr>)
         \<or> w' = w2\<lparr>tasks := [], loading := False\<rparr>"
      by blast
    from cleared_stays(3) [OF a] ways show ?thesis
      by (auto simp: connect_failed_fields show_and_store_fields)
  qed
qed

lemma connect_token_item:
  assumes run: "connect fuel env newToken w = Some (p, w')"
    and stored: "asana_token_item w \<noteq> Some ''demo''"
  shows "asana_token_item w' \<noteq> Some ''demo''"
proof -
  let ?c = "handleAsanaConnect newToken w"
  have c: "asana_token_item ?c \<noteq> Some ''demo''"
    using stored by (auto simp: handleAsanaConnect_def Let_def storage_eval)
  from run have "w' = ?c \<or> (\<exists>tok. fetchTasksForToken fuel env tok ?c = Some (p, w'))"
    by (auto simp: connect_def tokenEffect_def split: option.splits if_splits)
  with c show ?thesis by (auto dest: fetchTasksForToken_token_item)
qed


subsection \<open>Failures of the foreground fetch\<close>

lemma started_error: "error (started w) = None"
  by (simp add: started_def)

lemma lookup_fails:
  "fetchTasksForToken (Suc 0) unreachable ''1/1200''
     (running_session 1000000 [remote_task ''1'' ''A'' (Some 10)] 400000)
   = Some (Failed failed_to_fetch,
       fetch_failed unreachable failed_to_fetch
         ((running_session 1000000 [remote_task ''1'' ''A'' (Some 10)] 400000)
            \<lparr>loading := True, now := 1000003, sent := [GetUser ''1/1200'']\<rparr>))"
  by (simp add: fetchTasksForToken_def Let_def network_eval example_eval)


lemma history_fails:
  "fetchAllHistoricalTasks (Suc 0) unreachable
     (running_session 1000000 [remote_task ''1'' ''A'' (Some 10)] 400000)
   = Some (Failed failed_to_fetch,
       (running_session 1000000 [remote_task ''1'' ''A'' (Some 10)] 400000)
         \<lparr>cached_tasks_item := None, last_sync_item := None,
          error := Some ''Failed to connect to Asana: TypeError: Failed to fetch'',
          now := 1000003, sent := [GetUser ''1/1200'']\<rparr>)"
  by (simp add: fetchAllHistoricalTasks_def fetchTasksWithLookback_def Let_def network_eval
      example_eval storage_eval connect_failed_def error_toString_def getOneYearAgoISOString_def)


lemma fetchAllHistoricalTasks_lookback:
  assumes run: "fetchAllHistoricalTasks fuel env w = Some (p, w')" and p: "p \<noteq> NotRun"
  shows "\<exists>tok. token w = Some tok \<and> tok \<noteq> [] \<and>
      fetchTasksWithLookback fuel env tok (year_before env (now w)) (clearTasks w) = Some (p, w')"
  using run p
  by (auto simp: fetchAllHistoricalTasks_def Let_def getOneYearAgoISOString_def clearTasks_fields
      split: option.splits if_splits)

lemma history_failure:
  assumes run: "fetchAllHistoricalTasks fuel env w = Some (p, w')"
    and p: "p = Failed e \<or> p = TasksFailed e \<or> p = NoWorkspaces"
  shows "error w' =
      Some (if p = Failed e then ''Failed to connect to Asana: '' @ error_toString e
            else if p = TasksFailed e then ''Failed to fetch tasks: '' @ error_toString e
            else ''No workspaces found in your Asana account'')"
    and "tasks w' = tasks w" and "asana_token_item w' = asana_token_item w"
    and "token w' = token w" and "getTasks w' = []" and "getLastSyncDate w' = None"
proof -
  from p have "p \<noteq> NotRun" by auto
  from fetchAllHistoricalTasks_lookback [OF run this] obtain tok where
    look: "fetchTasksWithLookback fuel env tok (year_before env (now w)) (clearTasks w) = Some (p, w')"
    by blast
  have demo: "tok \<noteq> ''demo''"
    using look p by (auto simp: fetchTasksWithLookback_demo)
  from fetchTasksWithLookback_result [OF look demo] p obtain w2 where
    a: "after_requests (started (clearTasks w)) w2"
    and ways: "(p = Failed e \<and> w' = connect_failed e w2)
         \<or> (p = NoWorkspaces \<and>
              w' = w2\<lparr>error := Some ''No workspaces found in your Asana account'', loading := False\<rparr>)
         \<or> (p = TasksFailed e \<and>
              w' = w2\<lparr>error := Some (''Failed to fetch tasks: '' @ error_toString e), loading := False\<rparr>)"
    by auto
  note c = cleared_stays [OF a]
  from ways show "error w' =
      Some (if p = Failed e then ''Failed to connect to Asana: '' @ error_toString e
            else if p = TasksFailed e then ''Failed to fetch tasks: '' @ error_toString e
            else ''No workspaces found in your Asana account'')"
    by (auto simp: connect_failed_fields)
  from ways c show "tasks w' = tasks w" by (auto simp: connect_failed_fields)
  from ways c show "asana_token_item w' = asana_token_item w" by (auto simp: connect_failed_fields)
  from ways c show "token w' = token w" by (auto simp: connect_failed_fields)
  from ways c show "getTasks w' = []" by (auto simp: connect_failed_fields loading_storage)
  from ways c show "getLastSyncDate w' = None" by (auto simp: connect_failed_fields loading_storage)
qed









subsection \<open>A listing that is interrupted\<close>




subsection \<open>The background refresh among other handlers\<close>






















section \<open>The claims about the merge\<close>

text \<open>
  C1. For every cached sequence and every incoming sequence of tasks, the merged output
  of the two loops is the content of the insertion-ordered map built by inserting the
  cached records under their identifiers and then the incoming records under theirs, in
  the order of the response, records without an identifier being skipped. Hence: the
  identifiers of the output are those of the cache in their order (first occurrences),
  followed by the new identifiers in the order of the response; the record under every
  identifier is the last incoming record with it, or else the last cached record with
  it; and no record of the output lacks an identifier or shares it with another one.
\<close>

theorem merge_by_identifier:
  "mergedTasks cached incoming = merge_reference cached incoming
   \<and> identifiers (mergedTasks cached incoming) =
       first_occurrences (identifiers cached) @
       first_occurrences (filter (\<lambda>k. k \<notin> set (identifiers cached)) (identifiers incoming))
   \<and> (\<forall>k. last_with k (mergedTasks cached incoming) =
         (if k = [] then None
          else case last_with k incoming of
                 Some t \<Rightarrow> Some t
               | None \<Rightarrow> last_with k cached))
   \<and> well_formed_cache (mergedTasks cached incoming)"
  by (simp add: merge_refines [symmetric] merged_identifiers first_occurrences_append
      merged_last_with merged_well_formed)

text \<open>An example: the record \<open>1\<close> is overwritten where it stands, \<open>3\<close> is appended, and
  the two records without an identifier are dropped.\<close>

theorem merge_by_identifier_witness:
  "merge_reference
     [remote_task ''1'' ''A'' None, remote_task ''2'' ''B'' (Some 10), anonymous_task ''Z'']
     [remote_task ''3'' ''C'' (Some 30), remote_task ''1'' ''A'' (Some 20), anonymous_task ''Y'']
   = [remote_task ''1'' ''A'' (Some 20), remote_task ''2'' ''B'' (Some 10),
      remote_task ''3'' ''C'' (Some 30)]
   \<and> mergedTasks
     [remote_task ''1'' ''A'' None, remote_task ''2'' ''B'' (Some 10), anonymous_task ''Z'']
     [remote_task ''3'' ''C'' (Some 30), remote_task ''1'' ''A'' (Some 20), anonymous_task ''Y'']
   = [remote_task ''1'' ''A'' (Some 20), remote_task ''2'' ''B'' (Some 10),
      remote_task ''3'' ''C'' (Some 30)]"
proof -
  let ?cached =
    "[remote_task ''1'' ''A'' None, remote_task ''2'' ''B'' (Some 10), anonymous_task ''Z'']"
  let ?incoming =
    "[remote_task ''3'' ''C'' (Some 30), remote_task ''1'' ''A'' (Some 20), anonymous_task ''Y'']"
  have run: "mergedTasks ?cached ?incoming =
      [remote_task ''1'' ''A'' (Some 20), remote_task ''2'' ''B'' (Some 10),
       remote_task ''3'' ''C'' (Some 30)]"
    by (simp add: merge_eval)
  from merge_by_identifier [of ?cached ?incoming]
  have "mergedTasks ?cached ?incoming = merge_reference ?cached ?incoming" by (rule conjunct1)
  with run show ?thesis by simp
qed

text \<open>
  C8, as the code has it. Idempotence of the merge. In a cached set (every record has an
  identifier, and no two records share one), merging a record that is already present,
  with the same identifier and the same fields, gives the cached set back: its size and
  the record are unchanged. For a cached list of any kind the size does not grow, it is
  unchanged exactly when the list is such a set, and a record with an identifier is in
  the result as it was. For any cache and any incoming sequence, merging the sequence a
  second time into the result of the first merge changes nothing; and every result of a
  merge is such a cached set.
\<close>

theorem merge_idempotent:
  "(well_formed_cache cached \<and> r \<in> set cached \<longrightarrow>
      mergedTasks cached [r] = cached
      \<and> length (mergedTasks cached [r]) = length cached
      \<and> r \<in> set (mergedTasks cached [r]))
   \<and> (r \<in> set cached \<longrightarrow>
      (length (mergedTasks cached [r]) = length cached \<longleftrightarrow> well_formed_cache cached)
      \<and> length (mergedTasks cached [r]) \<le> length cached
      \<and> (truthy (gid r) \<longrightarrow> r \<in> set (mergedTasks cached [r])))
   \<and> mergedTasks (mergedTasks cached incoming) incoming = mergedTasks cached incoming
   \<and> well_formed_cache (mergedTasks cached incoming)"
proof (intro conjI impI)
  assume "well_formed_cache cached \<and> r \<in> set cached"
  then show "mergedTasks cached [r] = cached"
    and "length (mergedTasks cached [r]) = length cached"
    and "r \<in> set (mergedTasks cached [r])"
    by (simp_all add: merge_present)
next
  assume r: "r \<in> set cached"
  show "length (mergedTasks cached [r]) = length cached \<longleftrightarrow> well_formed_cache cached"
    by (rule merged_size_kept [OF r])
  have "length (first_occurrences (identifiers cached)) \<le> length (identifiers cached)"
    by (rule length_first_occurrences)
  also have "\<dots> \<le> length cached" by (rule length_identifiers)
  finally show "length (mergedTasks cached [r]) \<le> length cached"
    by (simp add: merged_length_present [OF r])
next
  assume "truthy (gid r)"
  then show "r \<in> set (mergedTasks cached [r])" by (rule merged_keeps_record)
next
  show "mergedTasks (mergedTasks cached incoming) incoming = mergedTasks cached incoming"
    by (rule merge_twice)
  show "well_formed_cache (mergedTasks cached incoming)" by (rule merged_well_formed)
qed


text \<open>An example: a cached set, and a cached list that holds an identifier twice.\<close>

theorem merge_idempotent_witness:
  "well_formed_cache [remote_task ''1'' ''A'' None, remote_task ''2'' ''B'' (Some 10)]
   \<and> remote_task ''2'' ''B'' (Some 10)
       \<in> set [remote_task ''1'' ''A'' None, remote_task ''2'' ''B'' (Some 10)]
   \<and> mergedTasks [remote_task ''1'' ''A'' None, remote_task ''2'' ''B'' (Some 10)]
        [remote_task ''2'' ''B'' (Some 10)]
      = [remote_task ''1'' ''A'' None, remote_task ''2'' ''B'' (Some 10)]
   \<and> remote_task ''1'' ''A'' (Some 20)
       \<in> set [remote_task ''1'' ''A'' (Some 10), remote_task ''1'' ''A'' (Some 20)]
   \<and> \<not> well_formed_cache [remote_task ''1'' ''A'' (Some 10), remote_task ''1'' ''A'' (Some 20)]
   \<and> length (mergedTasks [remote_task ''1'' ''A'' (Some 10), remote_task ''1'' ''A'' (Some 20)]
        [remote_task ''1'' ''A'' (Some 20)]) < 2
   \<and> remote_task ''1'' ''A'' (Some 20)
       \<in> set (mergedTasks [remote_task ''1'' ''A'' (Some 10), remote_task ''1'' ''A'' (Some 20)]
            [remote_task ''1'' ''A'' (Some 20)])"
proof -
  let ?cached = "[remote_task ''1'' ''A'' None, remote_task ''2'' ''B'' (Some 10)]"
  have wf: "well_formed_cache ?cached"
    by (simp add: well_formed_cache_def remote_task_def)
  have r: "remote_task ''2'' ''B'' (Some 10) \<in> set ?cached" by simp
  from merge_idempotent [of ?cached "remote_task ''2'' ''B'' (Some 10)"] wf r
  have same: "mergedTasks ?cached [remote_task ''2'' ''B'' (Some 10)] = ?cached" by blast
  let ?twice = "[remote_task ''1'' ''A'' (Some 10), remote_task ''1'' ''A'' (Some 20)]"
  let ?r = "remote_task ''1'' ''A'' (Some 20)"
  have dup: "\<not> well_formed_cache ?twice"
    by (simp add: well_formed_cache_def remote_task_def)
  have member: "?r \<in> set ?twice" by simp
  have id: "truthy (gid ?r)" by (simp add: remote_task_def)
  note law = merge_idempotent [where cached = ?twice and r = ?r and incoming = "[]",
      THEN conjunct2, THEN conjunct1]
  from law member have "length (mergedTasks ?twice [?r]) = length ?twice \<longleftrightarrow> well_formed_cache ?twice"
    and "length (mergedTasks ?twice [?r]) \<le> length ?twice"
    and "truthy (gid ?r) \<longrightarrow> ?r \<in> set (mergedTasks ?twice [?r])"
    by blast+
  with dup id have "length (mergedTasks ?twice [?r]) < 2" and "?r \<in> set (mergedTasks ?twice [?r])"
    by simp_all
  with wf r same member dup show ?thesis by blast
qed

text \<open>
  C8, as the specification has it, fails for a cache that is not a set: merging a record
  that is present shrinks it. The request for the full history stores the listing as it
  came, so a listing that names a task twice leaves such a cache.
\<close>

theorem unmerged_cache_shrinks:
  "\<not> (\<forall>cached r. r \<in> set cached \<longrightarrow> length (mergedTasks cached [r]) = length cached)
   \<and> (\<exists>w'. fetchAllHistoricalTasks (Suc 0)
          (answering [remote_task ''1'' ''A'' (Some 10), remote_task ''1'' ''A'' (Some 20)])
          (running_session 1000000 [remote_task ''2'' ''B'' (Some 10)] 400000)
        = Some (Listed [remote_task ''1'' ''A'' (Some 10), remote_task ''1'' ''A'' (Some 20)], w')
      \<and> getTasks w' = [remote_task ''1'' ''A'' (Some 10), remote_task ''1'' ''A'' (Some 20)]
      \<and> mergedTasks (getTasks w') [remote_task ''1'' ''A'' (Some 20)]
          = [remote_task ''1'' ''A'' (Some 20)])"
proof (intro conjI notI)
  let ?twice = "[remote_task ''1'' ''A'' (Some 10), remote_task ''1'' ''A'' (Some 20)]"
  assume "\<forall>cached r. r \<in> set cached \<longrightarrow> length (mergedTasks cached [r]) = length cached"
  then have "remote_task ''1'' ''A'' (Some 20) \<in> set ?twice \<longrightarrow>
      length (mergedTasks ?twice [remote_task ''1'' ''A'' (Some 20)]) = length ?twice" by blast
  then show False by (simp add: merge_eval remote_task_def Map_values_def Map_new_def Map_has_def)
next
  let ?twice = "[remote_task ''1'' ''A'' (Some 10), remote_task ''1'' ''A'' (Some 20)]"
  let ?w' = "(running_session 1000000 [remote_task ''2'' ''B'' (Some 10)] 400000)
         \<lparr>cached_tasks_item := Some \<lparr>cache_tasks = ?twice, timestamp = 1000012\<rparr>,
          last_sync_item := Some 1000012,
          tasks := ?twice,
          now := 1000012,
          sent := [GetUser ''1/1200'',
                   GetTasks ''1/1200''
                     (assigned_query ''w1'' ''u1'' (1000000 - 86400000 * 365) None)]\<rparr>"
  have run: "fetchAllHistoricalTasks (Suc 0) (answering ?twice)
      (running_session 1000000 [remote_task ''2'' ''B'' (Some 10)] 400000)
      = Some (Listed ?twice, ?w')"
    by (simp add: fetchAllHistoricalTasks_def fetchTasksWithLookback_def getOneYearAgoISOString_def
      storage_eval example_eval network_eval show_and_store_def Let_def remote_task_def)
  have stored: "getTasks ?w' = ?twice" by (simp add: storage_eval example_eval)
  have "mergedTasks ?twice [remote_task ''1'' ''A'' (Some 20)] = [remote_task ''1'' ''A'' (Some 20)]"
    by (simp add: merge_eval remote_task_def Map_values_def Map_new_def Map_has_def)
  with run stored show "\<exists>w'. fetchAllHistoricalTasks (Suc 0) (answering ?twice)
          (running_session 1000000 [remote_task ''2'' ''B'' (Some 10)] 400000)
        = Some (Listed ?twice, w')
      \<and> getTasks w' = ?twice
      \<and> mergedTasks (getTasks w') [remote_task ''1'' ''A'' (Some 20)]
          = [remote_task ''1'' ''A'' (Some 20)]"
    by (intro exI [of _ ?w']) (simp only: simp_thms)
qed

section \<open>The claims about the cursor and the background refresh\<close>




text \<open>
  C3, as the code has it. A fetch that returns records and stores the merged set (the
  background refresh, or the foreground fetch) sets the cursor to the time at which it
  stores the set, that is, when the fetch has ended, not when it started; the capture time
  of the cache is the same instant. This time is not before the start of the fetch, and it
  is not before the lower bound of any request of the fetch, provided that the cursor
  stored before is not in the future and that thirty days before an instant is not after
  it.
\<close>

theorem cursor_advancement:
  assumes avail: "storage_available w"
    and run: "autoRefreshTasks fuel env accessToken w = Some (Listed ts, w')
              \<or> fetchTasksForToken fuel env accessToken w = Some (Listed ts, w')"
    and ne: "ts \<noteq> []"
  shows "last_sync_item w' = Some (now w')
       \<and> now w \<le> now w'
       \<and> cached_tasks_item w' =
           Some \<lparr>cache_tasks = mergedTasks (getTasks w) ts, timestamp = now w'\<rparr>
       \<and> ((\<forall>c. last_sync_item w = Some c \<longrightarrow> c \<le> now w) \<and> (\<forall>t. days_before env 30 t \<le> t) \<longrightarrow>
            (\<forall>req \<in> set (requests_since w w'). \<forall>bound. completed_since_of req = Some bound \<longrightarrow>
               bound \<le> now w'))"
  using run
proof
  assume "autoRefreshTasks fuel env accessToken w = Some (Listed ts, w')"
  from autoRefreshTasks_listed [OF this] ne obtain cursor w1 w2 where
    c: "getLastSyncDate w = Some cursor" and a1: "after_requests w w1" and a2: "after_requests w1 w2"
    and q1: "requests_since w w1 = [GetUser accessToken]"
    and q2: "\<forall>req \<in> set (requests_since w1 w2). is_listing req \<and> completed_since_of req = Some cursor"
    and w': "w' = refresh_done (show_and_store (mergedTasks (getTasks w) ts) w2)"
    by auto
  have a: "after_requests w w2" using a1 a2 by (rule after_requests_trans)
  have av: "storage_available w2" using avail after_requests_same(1) [OF a] by simp
  have nw: "now w' = now w2" by (simp add: w' refresh_done_fields show_and_store_fields)
  have sw: "requests_since w w' = requests_since w w2"
    by (simp add: w' requests_since_def refresh_done_fields show_and_store_fields)
  have q: "requests_since w w2 = GetUser accessToken # requests_since w1 w2"
    using requests_since_trans [OF a1 a2] q1 by simp
  have cur: "last_sync_item w = Some cursor"
    using c avail by (simp add: getLastSyncDate_def)
  have bounds: "\<forall>req \<in> set (requests_since w w'). \<forall>bound.
      completed_since_of req = Some bound \<longrightarrow> bound \<le> now w'"
    if "\<forall>c. last_sync_item w = Some c \<longrightarrow> c \<le> now w"
    unfolding sw q nw using that cur q2 after_requests_now [OF a] by auto
  show ?thesis
    using after_requests_now [OF a] bounds
    by (simp add: w' refresh_done_fields show_and_store_fields show_and_store_items [OF av])
next
  assume "fetchTasksForToken fuel env accessToken w = Some (Listed ts, w')"
  from fetchTasksForToken_listed [OF this] obtain w1 w2 where
    a1: "after_requests (started w) w1" and a2: "after_requests w1 w2"
    and q1: "requests_since w w1 = [GetUser accessToken]"
    and q2: "\<forall>req \<in> set (requests_since w1 w2). is_listing req \<and>
            completed_since_of req =
              Some (case getLastSyncDate w of Some date \<Rightarrow> date | None \<Rightarrow> days_before env 30 (now w1))"
    and w': "w' = (show_and_store (mergedTasks (getTasks w) ts) w2)\<lparr>loading := False\<rparr>"
    by auto
  have a: "after_requests (started w) w2" using a1 a2 by (rule after_requests_trans)
  have av: "storage_available w2"
    using avail after_requests_same(1) [OF a] by (simp add: started_fields)
  have n1: "now w \<le> now w1" using after_requests_now [OF a1] by (simp add: started_fields)
  have n2: "now w1 \<le> now w2" using a2 by (rule after_requests_now)
  have sw: "requests_since w w' = requests_since w w2"
    by (simp add: w' requests_since_def show_and_store_fields)
  have q: "requests_since w w2 = GetUser accessToken # requests_since w1 w2"
    using requests_since_trans [OF a1 a2] q1 by (simp add: started_fields)
  have bound: "(case getLastSyncDate w of Some date \<Rightarrow> date | None \<Rightarrow> days_before env 30 (now w1))
      \<le> now w2"
    if "\<forall>c. last_sync_item w = Some c \<longrightarrow> c \<le> now w" and "\<forall>t. days_before env 30 t \<le> t"
  proof (cases "getLastSyncDate w")
    case None
    have "days_before env 30 (now w1) \<le> now w1" using that(2) by simp
    with None n2 show ?thesis by simp
  next
    case (Some c)
    then have "last_sync_item w = Some c" using avail by (simp add: getLastSyncDate_def)
    with that(1) have "c \<le> now w" by simp
    with Some n1 n2 show ?thesis by simp
  qed
  have nw: "now w' = now w2" by (simp add: w' show_and_store_fields)
  have bounds: "\<forall>req \<in> set (requests_since w w'). \<forall>b.
      completed_since_of req = Some b \<longrightarrow> b \<le> now w'"
    if "\<forall>c. last_sync_item w = Some c \<longrightarrow> c \<le> now w" and "\<forall>t. days_before env 30 t \<le> t"
    unfolding sw q nw using bound [OF that] q2 by auto
  show ?thesis
    using n1 n2 bounds
    by (simp add: w' show_and_store_fields show_and_store_items [OF av])
qed

text \<open>An example: a refresh that takes 12 ms.\<close>

theorem cursor_advancement_witness:
  "\<exists>w'. autoRefreshTasks (Suc 0) (answering [remote_task ''3'' ''C'' (Some 30)]) ''1/1200''
          (running_session 1000000 [remote_task ''1'' ''A'' (Some 10)] 400000)
        = Some (Listed [remote_task ''3'' ''C'' (Some 30)], w')
      \<and> last_sync_item w' = Some 1000012
      \<and> now w' = 1000012
      \<and> completed_since_of (GetTasks ''1/1200'' (assigned_query ''w1'' ''u1'' 400000 None))
          = Some 400000
      \<and> 400000 \<le> now w'"
proof -
  let ?w = "running_session 1000000 [remote_task ''1'' ''A'' (Some 10)] 400000"
  let ?env = "answering [remote_task ''3'' ''C'' (Some 30)]"
  let ?req = "GetTasks ''1/1200'' (assigned_query ''w1'' ''u1'' 400000 None)"
  obtain w' where run: "autoRefreshTasks (Suc 0) ?env ''1/1200'' ?w
      = Some (Listed [remote_task ''3'' ''C'' (Some 30)], w')"
    and n: "now w' = 1000012"
    and s: "sent w' = [GetUser ''1/1200'', ?req]"
    using refresh_run by simp
  have av: "storage_available ?w" by (simp add: example_eval)
  have past: "\<forall>c. last_sync_item ?w = Some c \<longrightarrow> c \<le> now ?w"
    by (simp add: example_eval)
  have cal: "\<forall>t. days_before ?env 30 t \<le> t"
    by (simp add: answering_def)
  have bound: "completed_since_of ?req = Some 400000"
    by (simp add: assigned_query_def)
  have sent: "?req \<in> set (requests_since ?w w')"
    by (simp add: requests_since_def s example_eval)
  note adv = cursor_advancement [OF av disjI1 [OF run]]
  from adv have cursor: "last_sync_item w' = Some (now w')" by simp
  from adv have "(\<forall>c. last_sync_item ?w = Some c \<longrightarrow> c \<le> now ?w) \<and> (\<forall>t. days_before ?env 30 t \<le> t) \<longrightarrow>
      (\<forall>req \<in> set (requests_since ?w w'). \<forall>bound. completed_since_of req = Some bound \<longrightarrow>
         bound \<le> now w')" by simp
  with past cal have "\<forall>req \<in> set (requests_since ?w w'). \<forall>bound.
      completed_since_of req = Some bound \<longrightarrow> bound \<le> now w'" by blast
  with sent bound have "400000 \<le> now w'" by blast
  with run cursor n bound show ?thesis by auto
qed

text \<open>C3, as the specification has it, fails: the cursor is not the time at which the
  fetch started, as soon as the fetch takes time.\<close>

theorem cursor_is_not_fetch_start:
  "\<not> (\<forall>fuel env accessToken w ts w'.
         autoRefreshTasks fuel env accessToken w = Some (Listed ts, w') \<and> ts \<noteq> [] \<longrightarrow>
         last_sync_item w' = Some (now w))"
proof
  assume claim: "\<forall>fuel env accessToken w ts w'.
         autoRefreshTasks fuel env accessToken w = Some (Listed ts, w') \<and> ts \<noteq> [] \<longrightarrow>
         last_sync_item w' = Some (now w)"
  let ?w = "running_session 1000000 [remote_task ''1'' ''A'' (Some 10)] 400000"
  obtain w' where run: "autoRefreshTasks (Suc 0) (answering [remote_task ''3'' ''C'' (Some 30)])
      ''1/1200'' ?w = Some (Listed [remote_task ''3'' ''C'' (Some 30)], w')"
    and cursor: "last_sync_item w' = Some 1000012"
    using refresh_run by simp
  from claim run have "last_sync_item w' = Some (now ?w)" by blast
  with cursor show False by (simp add: example_eval)
qed

section \<open>The claims about the start of a session and the connect form\<close>



text \<open>
  C9. A connect with an empty field, or with white space only, is the demo connect: the
  handler does what the demo button does, nothing is stored under the token key, the token
  of the session is \<^verbatim>\<open>demo\<close>, and the effect on the new token shows the 15
  synthetic tasks without an error.
\<close>

theorem blank_connect_is_demo:
  "list_all white_space (field form) \<longrightarrow>
     handleConnect form w = handleDemoConnect form w
     \<and> asana_token_item (snd (handleConnect form w)) = asana_token_item w
     \<and> token (snd (handleConnect form w)) = Some ''demo''
     \<and> (\<exists>w'. tokenEffect fuel env (snd (handleConnect form w)) = Some (DemoMode, w')
              \<and> length (tasks w') = 15 \<and> error w' = None
              \<and> asana_token_item w' = asana_token_item w)"
proof
  assume "list_all white_space (field form)"
  then have "trim (field form) = []" by (rule trim_blank)
  then have h: "handleConnect form w = (form, handleAsanaConnect ''demo'' w)"
    by (simp add: handleConnect_def)
  have e: "tokenEffect fuel env (handleAsanaConnect ''demo'' w)
      = Some (DemoMode, show_demo_tasks env (started (handleAsanaConnect ''demo'' w)))"
    using connect_demo [of fuel env w] by (simp add: connect_def)
  have "asana_token_item (show_demo_tasks env (started (handleAsanaConnect ''demo'' w)))
      = asana_token_item w"
    using show_demo_tasks_fields(3) [of env "started (handleAsanaConnect ''demo'' w)"]
    by (simp add: persisted_def started_def handleAsanaConnect_demo)
  moreover have "error (show_demo_tasks env (started (handleAsanaConnect ''demo'' w))) = None"
    by (simp add: show_demo_tasks_fields started_def)
  ultimately show "handleConnect form w = handleDemoConnect form w
     \<and> asana_token_item (snd (handleConnect form w)) = asana_token_item w
     \<and> token (snd (handleConnect form w)) = Some ''demo''
     \<and> (\<exists>w'. tokenEffect fuel env (snd (handleConnect form w)) = Some (DemoMode, w')
              \<and> length (tasks w') = 15 \<and> error w' = None
              \<and> asana_token_item w' = asana_token_item w)"
    by (simp add: h e handleDemoConnect_def handleAsanaConnect_demo show_demo_tasks_fields)
qed

theorem blank_connect_is_demo_witness:
  "list_all white_space [CHR 0x20, CHR 0x09, CHR 0x20]
   \<and> handleConnect \<lparr>field = [CHR 0x20, CHR 0x09, CHR 0x20], hasSavedToken = False\<rparr> (session_start 0)
     = handleDemoConnect \<lparr>field = [CHR 0x20, CHR 0x09, CHR 0x20], hasSavedToken = False\<rparr> (session_start 0)
   \<and> asana_token_item (snd (handleConnect
        \<lparr>field = [CHR 0x20, CHR 0x09, CHR 0x20], hasSavedToken = False\<rparr> (session_start 0))) = None"
proof -
  have blank: "list_all white_space (field \<lparr>field = [CHR 0x20, CHR 0x09, CHR 0x20], hasSavedToken = False\<rparr>)"
    by (simp add: white_space_def)
  have none: "asana_token_item (session_start 0) = None" by (simp add: session_start_def)
  let ?form = "\<lparr>field = [CHR 0x20, CHR 0x09, CHR 0x20], hasSavedToken = False\<rparr>"
  from blank_connect_is_demo [of ?form "session_start 0" 0 unreachable] blank
  have same: "handleConnect ?form (session_start 0) = handleDemoConnect ?form (session_start 0)"
    and kept: "asana_token_item (snd (handleConnect ?form (session_start 0)))
      = asana_token_item (session_start 0)"
    by blast+
  from kept none have "asana_token_item (snd (handleConnect ?form (session_start 0))) = None"
    by (simp only:)
  moreover have "list_all white_space [CHR 0x20, CHR 0x09, CHR 0x20]"
    by (simp add: white_space_def)
  ultimately show ?thesis using same by (simp only: simp_thms)
qed

section \<open>The claims about the full history, the demo mode and failures\<close>


text \<open>
  C5, as the code has it. With the token \<^verbatim>\<open>demo\<close>, \<^verbatim>\<open>fetchTasksForToken\<close> and
  \<^verbatim>\<open>fetchTasksWithLookback\<close> show 15 synthetic tasks, \<^verbatim>\<open>task-1\<close> to
  \<^verbatim>\<open>task-15\<close>, all completed, each on the day that lies a random number of days
  before the day of display (within the last 30 days, if the draws are below 30 and the
  calendar puts fewer than 30 days before an instant at most 30 times 24 hours before
  it); the state is the one after the timer of one second.
  They send no request and leave \<^verbatim>\<open>localStorage\<close> as it is, and they do not read
  the cache or the cursor: with another cache and cursor the result is the same but for
  these two items. Connecting with \<^verbatim>\<open>demo\<close> shows the same 15 tasks, sends no
  request and stores no token, but it removes the cached tasks and the cursor, as every
  connect does; if none were stored, \<^verbatim>\<open>localStorage\<close> is unchanged. The request
  for the full history in a demo session shows the same tasks and clears the two items
  too. The background refresh is started with the stored token only, and neither a
  handler nor a fetch stores the token \<^verbatim>\<open>demo\<close>.
\<close>

theorem demo_mode:
  "(\<exists>w'. fetchTasksForToken fuel env ''demo'' w = Some (DemoMode, w')
       \<and> fetchTasksWithLookback fuel env ''demo'' since w = Some (DemoMode, w')
       \<and> length (tasks w') = 15
       \<and> (\<forall>i<15. tasks w' ! i =
               \<lparr>gid = None,
                 id' = Some (''task-'' @ decimal (Suc i)),
                 name = taskTypes ! (Suc i mod 7) @ '' Task '' @ decimal (Suc i),
                 completed_at =
                   Some (days_before env (random_days env (randoms w + i)) (now w + 1000)),
                 resource_type = Some ''task'',
                 completed = True\<rparr>)
       \<and> ((\<forall>k. random_days env k < 30)
            \<and> (\<forall>n t. n < 30 \<longrightarrow>
                  days_before env n t \<le> t \<and> t - 30 * 86400000 \<le> days_before env n t) \<longrightarrow>
          (\<forall>t\<in>set (tasks w'). \<exists>c. completed_at t = Some c
                \<and> now w' - 30 * 86400000 \<le> c \<and> c \<le> now w'))
       \<and> now w' = now w + 1000 \<and> loading w' = False \<and> error w' = None
       \<and> sent w' = sent w \<and> persisted w' = persisted w
       \<and> (\<forall>c s. fetchTasksForToken fuel env ''demo''
                   (w\<lparr>cached_tasks_item := c, last_sync_item := s\<rparr>)
                 = Some (DemoMode, w'\<lparr>cached_tasks_item := c, last_sync_item := s\<rparr>)
               \<and> fetchTasksWithLookback fuel env ''demo'' since
                   (w\<lparr>cached_tasks_item := c, last_sync_item := s\<rparr>)
                 = Some (DemoMode, w'\<lparr>cached_tasks_item := c, last_sync_item := s\<rparr>))
       \<and> (\<exists>v. connect fuel env ''demo'' w = Some (DemoMode, v)
             \<and> tasks v = tasks w' \<and> now v = now w' \<and> sent v = sent w
             \<and> token v = Some ''demo'' \<and> asana_token_item v = asana_token_item w
             \<and> getTasks v = [] \<and> getLastSyncDate v = None
             \<and> (cached_tasks_item w = None \<and> last_sync_item w = None \<longrightarrow>
                  persisted v = persisted w))
       \<and> (token w = Some ''demo'' \<longrightarrow>
            (\<exists>v. fetchAllHistoricalTasks fuel env w = Some (DemoMode, v)
               \<and> tasks v = tasks w' \<and> now v = now w' \<and> sent v = sent w
               \<and> asana_token_item v = asana_token_item w
               \<and> getTasks v = [] \<and> getLastSyncDate v = None)))
   \<and> (snd (mountEffect w) = Some tok \<longrightarrow> asana_token_item w = Some tok)
   \<and> (asana_token_item w \<noteq> Some ''demo'' \<longrightarrow>
        asana_token_item (handleAsanaConnect newToken w) \<noteq> Some ''demo''
        \<and> asana_token_item (snd (handleConnect form w)) \<noteq> Some ''demo''
        \<and> asana_token_item (snd (handleDemoConnect form w)) \<noteq> Some ''demo''
        \<and> asana_token_item (handleDisconnect w) \<noteq> Some ''demo''
        \<and> (\<forall>v. fetchTasksForToken fuel env accessToken w = Some (p, v)
               \<or> autoRefreshTasks fuel env accessToken w = Some (p, v)
               \<or> fetchAllHistoricalTasks fuel env w = Some (p, v)
               \<or> connect fuel env newToken w = Some (p, v) \<longrightarrow>
             asana_token_item v \<noteq> Some ''demo''))"
proof (intro conjI impI)
  let ?w' = "show_demo_tasks env (started w)"
  let ?c = "handleAsanaConnect ''demo'' w"
  let ?v = "show_demo_tasks env (started ?c)"
  let ?h = "show_demo_tasks env (started (clearTasks w))"
  have f1: "fetchTasksForToken fuel env ''demo'' w = Some (DemoMode, ?w')"
    and f2: "fetchTasksWithLookback fuel env ''demo'' since w = Some (DemoMode, ?w')"
    by (simp_all add: fetchTasksForToken_demo fetchTasksWithLookback_demo started_def)
  have n: "length (tasks ?w') = 15" by (rule show_demo_tasks_fields)
  have recs: "\<forall>i<15. tasks ?w' ! i =
               \<lparr>gid = None,
               id' = Some (''task-'' @ decimal (Suc i)),
               name = taskTypes ! (Suc i mod 7) @ '' Task '' @ decimal (Suc i),
               completed_at =
                 Some (days_before env (random_days env (randoms w + i)) (now w + 1000)),
               resource_type = Some ''task'',
               completed = True\<rparr>"
    by (simp add: show_demo_tasks_record started_fields)
  have recent: "(\<forall>k. random_days env k < 30)
            \<and> (\<forall>n t. n < 30 \<longrightarrow>
                  days_before env n t \<le> t \<and> t - 30 * 86400000 \<le> days_before env n t) \<longrightarrow>
          (\<forall>t\<in>set (tasks ?w'). \<exists>c. completed_at t = Some c
                \<and> now ?w' - 30 * 86400000 \<le> c \<and> c \<le> now ?w')"
    using show_demo_tasks_recent [of env _ "started w"]
    by (simp add: show_demo_tasks_fields started_fields)
  have state: "now ?w' = now w + 1000" "loading ?w' = False" "error ?w' = None"
    "sent ?w' = sent w" "persisted ?w' = persisted w"
    by (simp_all add: show_demo_tasks_fields show_demo_tasks_state started_fields started_error)
  have unread: "\<forall>c s. fetchTasksForToken fuel env ''demo''
                   (w\<lparr>cached_tasks_item := c, last_sync_item := s\<rparr>)
                 = Some (DemoMode, ?w'\<lparr>cached_tasks_item := c, last_sync_item := s\<rparr>)
               \<and> fetchTasksWithLookback fuel env ''demo'' since
                   (w\<lparr>cached_tasks_item := c, last_sync_item := s\<rparr>)
                 = Some (DemoMode, ?w'\<lparr>cached_tasks_item := c, last_sync_item := s\<rparr>)"
    by (simp add: fetchTasksForToken_demo fetchTasksWithLookback_demo started_def
        show_demo_tasks_def generateMockTasks_def)
  have same: "tasks ?v = tasks ?w'" "tasks ?h = tasks ?w'"
    by (rule show_demo_tasks_reads;
        simp add: started_fields handleAsanaConnect_demo clearTasks_fields
          handleAsanaConnect_def Let_def storage_eval)+
  have kept: "persisted ?v = persisted w" if "cached_tasks_item w = None \<and> last_sync_item w = None"
    using that by (simp add: show_demo_tasks_fields started_fields handleAsanaConnect_demo_persisted)
  have conn: "\<exists>v. connect fuel env ''demo'' w = Some (DemoMode, v)
             \<and> tasks v = tasks ?w' \<and> now v = now ?w' \<and> sent v = sent w
             \<and> token v = Some ''demo'' \<and> asana_token_item v = asana_token_item w
             \<and> getTasks v = [] \<and> getLastSyncDate v = None
             \<and> (cached_tasks_item w = None \<and> last_sync_item w = None \<longrightarrow>
                  persisted v = persisted w)"
    using kept
    by (intro exI [of _ ?v])
      (simp add: connect_demo same show_demo_tasks_fields show_demo_tasks_storage started_fields
        handleAsanaConnect_demo, simp add: started_def handleAsanaConnect_demo)
  have hist: "token w = Some ''demo'' \<longrightarrow>
            (\<exists>v. fetchAllHistoricalTasks fuel env w = Some (DemoMode, v)
               \<and> tasks v = tasks ?w' \<and> now v = now ?w' \<and> sent v = sent w
               \<and> asana_token_item v = asana_token_item w
               \<and> getTasks v = [] \<and> getLastSyncDate v = None)"
  proof
    assume demo: "token w = Some ''demo''"
    show "\<exists>v. fetchAllHistoricalTasks fuel env w = Some (DemoMode, v)
               \<and> tasks v = tasks ?w' \<and> now v = now ?w' \<and> sent v = sent w
               \<and> asana_token_item v = asana_token_item w
               \<and> getTasks v = [] \<and> getLastSyncDate v = None"
      by (intro exI [of _ ?h])
        (simp add: fetchAllHistoricalTasks_demo [OF demo] same show_demo_tasks_fields
          show_demo_tasks_storage started_fields clearTasks_fields,
         simp add: started_def clearTasks_fields)
  qed
  from f1 f2 n recs recent state unread conn hist
  show "\<exists>w'. fetchTasksForToken fuel env ''demo'' w = Some (DemoMode, w')
       \<and> fetchTasksWithLookback fuel env ''demo'' since w = Some (DemoMode, w')
       \<and> length (tasks w') = 15
       \<and> (\<forall>i<15. tasks w' ! i =
               \<lparr>gid = None,
                 id' = Some (''task-'' @ decimal (Suc i)),
                 name = taskTypes ! (Suc i mod 7) @ '' Task '' @ decimal (Suc i),
                 completed_at =
                   Some (days_before env (random_days env (randoms w + i)) (now w + 1000)),
                 resource_type = Some ''task'',
                 completed = True\<rparr>)
       \<and> ((\<forall>k. random_days env k < 30)
            \<and> (\<forall>n t. n < 30 \<longrightarrow>
                  days_before env n t \<le> t \<and> t - 30 * 86400000 \<le> days_before env n t) \<longrightarrow>
          (\<forall>t\<in>set (tasks w'). \<exists>c. completed_at t = Some c
                \<and> now w' - 30 * 86400000 \<le> c \<and> c \<le> now w'))
       \<and> now w' = now w + 1000 \<and> loading w' = False \<and> error w' = None
       \<and> sent w' = sent w \<and> persisted w' = persisted w
       \<and> (\<forall>c s. fetchTasksForToken fuel env ''demo''
                   (w\<lparr>cached_tasks_item := c, last_sync_item := s\<rparr>)
                 = Some (DemoMode, w'\<lparr>cached_tasks_item := c, last_sync_item := s\<rparr>)
               \<and> fetchTasksWithLookback fuel env ''demo'' since
                   (w\<lparr>cached_tasks_item := c, last_sync_item := s\<rparr>)
                 = Some (DemoMode, w'\<lparr>cached_tasks_item := c, last_sync_item := s\<rparr>))
       \<and> (\<exists>v. connect fuel env ''demo'' w = Some (DemoMode, v)
             \<and> tasks v = tasks w' \<and> now v = now w' \<and> sent v = sent w
             \<and> token v = Some ''demo'' \<and> asana_token_item v = asana_token_item w
             \<and> getTasks v = [] \<and> getLastSyncDate v = None
             \<and> (cached_tasks_item w = None \<and> last_sync_item w = None \<longrightarrow>
                  persisted v = persisted w))
       \<and> (token w = Some ''demo'' \<longrightarrow>
            (\<exists>v. fetchAllHistoricalTasks fuel env w = Some (DemoMode, v)
               \<and> tasks v = tasks w' \<and> now v = now w' \<and> sent v = sent w
               \<and> asana_token_item v = asana_token_item w
               \<and> getTasks v = [] \<and> getLastSyncDate v = None))"
    by - (rule exI [of _ ?w'], intro conjI)
next
  assume "snd (mountEffect w) = Some tok"
  then show "asana_token_item w = Some tok" by (rule mountEffect_token)
next
  assume stored: "asana_token_item w \<noteq> Some ''demo''"
  show "asana_token_item (handleAsanaConnect newToken w) \<noteq> Some ''demo''"
    and "asana_token_item (snd (handleConnect form w)) \<noteq> Some ''demo''"
    and "asana_token_item (snd (handleDemoConnect form w)) \<noteq> Some ''demo''"
    and "asana_token_item (handleDisconnect w) \<noteq> Some ''demo''"
    by (rule stored_token_not_demo [OF stored])+
  show "\<forall>v. fetchTasksForToken fuel env accessToken w = Some (p, v)
               \<or> autoRefreshTasks fuel env accessToken w = Some (p, v)
               \<or> fetchAllHistoricalTasks fuel env w = Some (p, v)
               \<or> connect fuel env newToken w = Some (p, v) \<longrightarrow>
             asana_token_item v \<noteq> Some ''demo''"
    using stored fetchTasksForToken_token_item [of fuel env accessToken w p]
      autoRefreshTasks_token_item [of fuel env accessToken w p]
      fetchAllHistoricalTasks_token_item [of fuel env w p]
      connect_token_item [of fuel env newToken w p]
    by metis
qed


text \<open>An example: the demo connect of a first session, with nothing stored, and the
  demo fetch in front of a stored cache.\<close>

theorem demo_mode_witness:
  "(\<exists>w'. connect 0 unreachable ''demo'' (session_start 5000) = Some (DemoMode, w')
      \<and> length (tasks w') = 15
      \<and> tasks w' ! 0 =
          \<lparr>gid = None, id' = Some ''task-1'', name = ''Design Task 1'',
           completed_at = Some 6000, resource_type = Some ''task'', completed = True\<rparr>
      \<and> list_all (\<lambda>t. \<exists>c. completed_at t = Some c \<and> 6000 - 30 * 86400000 \<le> c \<and> c \<le> 6000)
            (tasks w')
      \<and> now w' = 6000
      \<and> persisted w' = persisted (session_start 5000)
      \<and> sent w' = [])
   \<and> (\<exists>w'. fetchAllHistoricalTasks 0 unreachable ((session_start 5000)\<lparr>token := Some ''demo''\<rparr>)
        = Some (DemoMode, w')
      \<and> length (tasks w') = 15 \<and> sent w' = [])
   \<and> (\<exists>w'. fetchTasksForToken 0 unreachable ''demo''
          (stored_session 1000000 [remote_task ''1'' ''A'' (Some 10)] 400000)
        = Some (DemoMode, w')
      \<and> length (tasks w') = 15
      \<and> getTasks w' = [remote_task ''1'' ''A'' (Some 10)]
      \<and> getLastSyncDate w' = Some 400000)
   \<and> snd (mountEffect (stored_session 1000000 [remote_task ''1'' ''A'' (Some 10)] 400000))
       = Some ''1/1200''
   \<and> asana_token_item (stored_session 1000000 [remote_task ''1'' ''A'' (Some 10)] 400000)
       = Some ''1/1200''
   \<and> asana_token_item (session_start 5000) \<noteq> Some ''demo''
   \<and> asana_token_item (snd (handleDemoConnect \<lparr>field = [], hasSavedToken = False\<rparr> (session_start 5000)))
       \<noteq> Some ''demo''"
proof (intro conjI)
  let ?s = "session_start 5000"
  note demo = demo_mode [where fuel = 0 and env = unreachable and w = ?s and since = 0,
      THEN conjunct1]
  then obtain w' :: world and v where
    n: "length (tasks w') = 15"
    and recs: "\<forall>i<15. tasks w' ! i =
               \<lparr>gid = None,
                id' = Some (''task-'' @ decimal (Suc i)),
                name = taskTypes ! (Suc i mod 7) @ '' Task '' @ decimal (Suc i),
                completed_at =
                  Some (days_before unreachable (random_days unreachable (randoms ?s + i)) (now ?s + 1000)),
                resource_type = Some ''task'',
                completed = True\<rparr>"
    and recent: "(\<forall>k. random_days unreachable k < 30)
            \<and> (\<forall>n t. n < 30 \<longrightarrow>
                  days_before unreachable n t \<le> t \<and> t - 30 * 86400000 \<le> days_before unreachable n t) \<longrightarrow>
          (\<forall>t\<in>set (tasks w'). \<exists>c. completed_at t = Some c
                \<and> now w' - 30 * 86400000 \<le> c \<and> c \<le> now w')"
    and t: "now w' = now ?s + 1000"
    and run: "connect 0 unreachable ''demo'' ?s = Some (DemoMode, v)"
    and same: "tasks v = tasks w'" "now v = now w'" "sent v = sent ?s"
    and kept: "cached_tasks_item ?s = None \<and> last_sync_item ?s = None \<longrightarrow> persisted v = persisted ?s"
    by (elim exE conjE) blast
  have draws: "\<forall>k. random_days unreachable k < 30" by (simp add: unreachable_def)
  have days: "\<forall>n t. n < 30 \<longrightarrow>
      days_before unreachable n t \<le> t \<and> t - 30 * 86400000 \<le> days_before unreachable n t"
    by (simp add: unreachable_def)
  from recent draws days have "\<forall>t\<in>set (tasks w'). \<exists>c. completed_at t = Some c
      \<and> now w' - 30 * 86400000 \<le> c \<and> c \<le> now w'" by blast
  with t same have r: "list_all (\<lambda>t. \<exists>c. completed_at t = Some c \<and> 6000 - 30 * 86400000 \<le> c \<and> c \<le> 6000)
      (tasks v)"
    by (simp add: list_all_iff session_start_def)
  from recs have "tasks w' ! 0 =
      \<lparr>gid = None, id' = Some (''task-'' @ decimal (Suc 0)),
       name = taskTypes ! (Suc 0 mod 7) @ '' Task '' @ decimal (Suc 0),
       completed_at =
         Some (days_before unreachable (random_days unreachable (randoms ?s + 0)) (now ?s + 1000)),
       resource_type = Some ''task'', completed = True\<rparr>" by simp
  with same have first: "tasks v ! 0 =
      \<lparr>gid = None, id' = Some ''task-1'', name = ''Design Task 1'',
       completed_at = Some 6000, resource_type = Some ''task'', completed = True\<rparr>"
    by (simp add: decimal.simps digit_def taskTypes_def unreachable_def session_start_def)
  have "cached_tasks_item ?s = None \<and> last_sync_item ?s = None" by (simp add: session_start_def)
  with kept have p: "persisted v = persisted ?s" by simp
  from same t have "now v = 6000" "sent v = []" by (simp_all add: session_start_def)
  with run n same first r p
  show "\<exists>w'. connect 0 unreachable ''demo'' ?s = Some (DemoMode, w')
      \<and> length (tasks w') = 15
      \<and> tasks w' ! 0 =
          \<lparr>gid = None, id' = Some ''task-1'', name = ''Design Task 1'',
           completed_at = Some 6000, resource_type = Some ''task'', completed = True\<rparr>
      \<and> list_all (\<lambda>t. \<exists>c. completed_at t = Some c \<and> 6000 - 30 * 86400000 \<le> c \<and> c \<le> 6000)
            (tasks w')
      \<and> now w' = 6000
      \<and> persisted w' = persisted ?s
      \<and> sent w' = []"
    by - (rule exI [of _ v], simp)
next
  let ?d = "(session_start 5000)\<lparr>token := Some ''demo''\<rparr>"
  have tok: "token ?d = Some ''demo''" by simp
  note demo = demo_mode [where fuel = 0 and env = unreachable and w = ?d and since = 0,
      THEN conjunct1]
  then obtain w' :: world where n: "length (tasks w') = 15"
    and hist: "token ?d = Some ''demo'' \<longrightarrow>
            (\<exists>v. fetchAllHistoricalTasks 0 unreachable ?d = Some (DemoMode, v)
               \<and> tasks v = tasks w' \<and> now v = now w' \<and> sent v = sent ?d
               \<and> asana_token_item v = asana_token_item ?d
               \<and> getTasks v = [] \<and> getLastSyncDate v = None)"
    by (elim exE conjE) blast
  from hist tok obtain v where "fetchAllHistoricalTasks 0 unreachable ?d = Some (DemoMode, v)"
    and "tasks v = tasks w'" and "sent v = sent ?d" by blast
  with n show "\<exists>w'. fetchAllHistoricalTasks 0 unreachable ?d = Some (DemoMode, w')
      \<and> length (tasks w') = 15 \<and> sent w' = []"
    by (auto simp: session_start_def)
next
  let ?c = "stored_session 1000000 [remote_task ''1'' ''A'' (Some 10)] 400000"
  note demo = demo_mode [where fuel = 0 and env = unreachable and w = ?c and since = 0,
      THEN conjunct1]
  then obtain w' where run: "fetchTasksForToken 0 unreachable ''demo'' ?c = Some (DemoMode, w')"
    and n: "length (tasks w') = 15" and p: "persisted w' = persisted ?c"
    by (elim exE conjE) blast
  have "storage_available w' = storage_available ?c"
    using run by (simp add: fetchTasksForToken_demo show_demo_tasks_def generateMockTasks_def)
      (auto simp: example_eval)
  with p have "getTasks w' = getTasks ?c" "getLastSyncDate w' = getLastSyncDate ?c"
    by (simp_all add: persisted_def storage_eval)
  then have "getTasks w' = [remote_task ''1'' ''A'' (Some 10)]" "getLastSyncDate w' = Some 400000"
    by (simp_all add: storage_eval example_eval)
  with run n show "\<exists>w'. fetchTasksForToken 0 unreachable ''demo'' ?c = Some (DemoMode, w')
      \<and> length (tasks w') = 15
      \<and> getTasks w' = [remote_task ''1'' ''A'' (Some 10)]
      \<and> getLastSyncDate w' = Some 400000" by blast
next
  let ?c = "stored_session 1000000 [remote_task ''1'' ''A'' (Some 10)] 400000"
  show started: "snd (mountEffect ?c) = Some ''1/1200''"
    by (simp add: mountEffect_def Let_def storage_eval example_eval isCacheStale_def
        FIVE_MINUTES_MS_def)
  from demo_mode [where w = ?c and tok = "''1/1200''" and env = unreachable and fuel = 0
      and since = 0 and newToken = "''demo''" and form = "\<lparr>field = [], hasSavedToken = False\<rparr>",
      THEN conjunct2, THEN conjunct1] started
  show "asana_token_item ?c = Some ''1/1200''" by (rule mp)
next
  let ?s = "session_start 5000"
  show none: "asana_token_item ?s \<noteq> Some ''demo''" by (simp add: session_start_def)
  from demo_mode [where w = ?s and tok = "''1/1200''" and env = unreachable and fuel = 0
      and since = 0 and newToken = "''demo''" and form = "\<lparr>field = [], hasSavedToken = False\<rparr>",
      THEN conjunct2, THEN conjunct2] none
  show "asana_token_item (snd (handleDemoConnect \<lparr>field = [], hasSavedToken = False\<rparr> ?s))
       \<noteq> Some ''demo''" by blast
qed

text \<open>C5, as the specification has it, fails: a demo connect on a \<^verbatim>\<open>localStorage\<close>
  that holds a cache writes to it.\<close>

theorem demo_connect_clears_cache:
  "\<not> (\<forall>fuel env w p w'. connect fuel env ''demo'' w = Some (p, w') \<longrightarrow> persisted w' = persisted w)"
proof
  assume claim: "\<forall>fuel env w p w'. connect fuel env ''demo'' w = Some (p, w') \<longrightarrow>
    persisted w' = persisted w"
  let ?w = "stored_session 1000000 [remote_task ''1'' ''A'' (Some 10)] 400000"
  let ?w' = "show_demo_tasks unreachable (started (handleAsanaConnect ''demo'' ?w))"
  have "connect 0 unreachable ''demo'' ?w = Some (DemoMode, ?w')"
    by (rule connect_demo)
  with claim have "persisted ?w' = persisted ?w" by blast
  then have "persisted (handleAsanaConnect ''demo'' ?w) = persisted ?w"
    by (simp add: show_demo_tasks_fields started_fields)
  then show False
    by (simp add: persisted_def handleAsanaConnect_def Let_def storage_eval example_eval)
qed



text \<open>
  C10, as the code has it. Whenever \<^verbatim>\<open>fetchTasksForToken\<close> ends in one of its two
  \<^verbatim>\<open>catch\<close> blocks, which can only happen with a token other than \<^verbatim>\<open>demo\<close>,
  the displayed tasks are the 20 synthetic records \<^verbatim>\<open>generateMockTasks(20)\<close> makes at
  that time, \<^verbatim>\<open>task-1\<close> to \<^verbatim>\<open>task-20\<close>, all completed; with the token
  \<^verbatim>\<open>demo\<close> they are the 15 records of \<^verbatim>\<open>generateMockTasks(15)\<close>. The two sets
  differ in size. A request for the full history that fails displays no placeholders: the
  displayed tasks stay what they were.
\<close>

theorem placeholder_size:
  "(fetchTasksForToken fuel env accessToken w = Some (p, w') \<and> (p = Failed e \<or> p = TasksFailed e) \<longrightarrow>
      accessToken \<noteq> ''demo''
      \<and> tasks w' = fst (generateMockTasks env 20 (w\<lparr>now := now w'\<rparr>))
      \<and> length (tasks w') = 20
      \<and> map id' (tasks w') = map (\<lambda>i. Some (''task-'' @ decimal i)) [1..<21]
      \<and> list_all completed (tasks w'))
   \<and> (fetchTasksForToken fuel env ''demo'' w = Some (p, w') \<longrightarrow>
      tasks w' = fst (generateMockTasks env 15 (w\<lparr>now := now w'\<rparr>))
      \<and> length (tasks w') = 15)
   \<and> length (fst (generateMockTasks env 20 w)) \<noteq> length (fst (generateMockTasks env 15 w))
   \<and> (fetchAllHistoricalTasks fuel env w = Some (p, w')
        \<and> (p = Failed e \<or> p = TasksFailed e \<or> p = NoWorkspaces) \<longrightarrow>
      tasks w' = tasks w)"
proof (intro conjI impI)
  assume "fetchTasksForToken fuel env accessToken w = Some (p, w') \<and> (p = Failed e \<or> p = TasksFailed e)"
  then have run: "fetchTasksForToken fuel env accessToken w = Some (p, w')"
    and p: "p = Failed e \<or> p = TasksFailed e" by simp_all
  from run p show "accessToken \<noteq> ''demo''"
    by (auto simp: fetchTasksForToken_demo)
  from run p obtain w2 where a: "after_requests (started w) w2"
    and w': "w' = fetch_failed env e w2 \<or> w' = tasks_failed env w2"
    using fetchTasksForToken_failed [of fuel env accessToken w e w']
      fetchTasksForToken_tasks_failed [of fuel env accessToken w e w'] by blast
  have n: "now w' = now w2"
    using w' by (auto simp: fetch_failed_fields tasks_failed_fields)
  have r: "randoms w2 = randoms w"
    using after_requests_same(10) [OF a] by (simp add: started_fields)
  have "tasks w' = fst (generateMockTasks env 20 w2)"
    using w' by (auto simp: fetch_failed_mock tasks_failed_mock)
  also have "\<dots> = fst (generateMockTasks env 20 (w\<lparr>now := now w'\<rparr>))"
    by (rule generateMockTasks_reads) (simp_all add: n r)
  finally show shown: "tasks w' = fst (generateMockTasks env 20 (w\<lparr>now := now w'\<rparr>))" .
  then show "length (tasks w') = 20" by (simp add: generateMockTasks_length)
  from shown show "map id' (tasks w') = map (\<lambda>i. Some (''task-'' @ decimal i)) [1..<21]"
    by (simp only: generateMockTasks_ids) simp
  from shown show "list_all completed (tasks w')"
    by (simp only: generateMockTasks_completed)
next
  assume "fetchTasksForToken fuel env ''demo'' w = Some (p, w')"
  then have w': "w' = show_demo_tasks env (started w)"
    by (simp add: fetchTasksForToken_demo started_def)
  have "tasks w' = fst (generateMockTasks env 15 ((started w)\<lparr>now := now (started w) + 1000\<rparr>))"
    by (simp add: w' show_demo_tasks_mock)
  also have "\<dots> = fst (generateMockTasks env 15 (w\<lparr>now := now w'\<rparr>))"
    by (rule generateMockTasks_reads) (simp_all add: w' show_demo_tasks_fields started_fields)
  finally show "tasks w' = fst (generateMockTasks env 15 (w\<lparr>now := now w'\<rparr>))" .
  then show "length (tasks w') = 15" by (simp add: generateMockTasks_length)
next
  show "length (fst (generateMockTasks env 20 w)) \<noteq> length (fst (generateMockTasks env 15 w))"
    by (simp add: generateMockTasks_length)
next
  assume "fetchAllHistoricalTasks fuel env w = Some (p, w')
        \<and> (p = Failed e \<or> p = TasksFailed e \<or> p = NoWorkspaces)"
  then have run: "fetchAllHistoricalTasks fuel env w = Some (p, w')"
    and p: "p = Failed e \<or> p = TasksFailed e \<or> p = NoWorkspaces" by simp_all
  show "tasks w' = tasks w" by (rule history_failure(2) [OF run p])
qed

text \<open>An example: the network cannot be reached, in a foreground fetch, in the demo mode
  and in a request for the full history.\<close>

theorem placeholder_size_witness:
  "(\<exists>w'. fetchTasksForToken (Suc 0) unreachable ''1/1200''
          (running_session 1000000 [remote_task ''1'' ''A'' (Some 10)] 400000)
        = Some (Failed failed_to_fetch, w')
      \<and> length (tasks w') = 20)
   \<and> (\<exists>w'. fetchTasksForToken 0 unreachable ''demo'' (session_start 5000) = Some (DemoMode, w')
      \<and> length (tasks w') = 15)
   \<and> (\<exists>w'. fetchAllHistoricalTasks (Suc 0) unreachable
          (running_session 1000000 [remote_task ''1'' ''A'' (Some 10)] 400000)
        = Some (Failed failed_to_fetch, w')
      \<and> tasks w' = [remote_task ''1'' ''A'' (Some 10)])"
proof (intro conjI)
  let ?w = "running_session 1000000 [remote_task ''1'' ''A'' (Some 10)] 400000"
  obtain w' where run: "fetchTasksForToken (Suc 0) unreachable ''1/1200'' ?w
      = Some (Failed failed_to_fetch, w')"
    using lookup_fails by simp
  from placeholder_size [where fuel = "Suc 0" and env = unreachable and accessToken = "''1/1200''"
      and w = ?w and p = "Failed failed_to_fetch" and w' = w' and e = failed_to_fetch,
      THEN conjunct1]
  have "fetchTasksForToken (Suc 0) unreachable ''1/1200'' ?w = Some (Failed failed_to_fetch, w')
      \<and> (Failed failed_to_fetch = Failed failed_to_fetch
          \<or> Failed failed_to_fetch = TasksFailed failed_to_fetch) \<longrightarrow>
      ''1/1200'' \<noteq> ''demo''
      \<and> tasks w' = fst (generateMockTasks unreachable 20 (?w\<lparr>now := now w'\<rparr>))
      \<and> length (tasks w') = 20
      \<and> map id' (tasks w') = map (\<lambda>i. Some (''task-'' @ decimal i)) [1..<21]
      \<and> list_all completed (tasks w')" .
  with run have "length (tasks w') = 20" by blast
  with run show "\<exists>w'. fetchTasksForToken (Suc 0) unreachable ''1/1200'' ?w
        = Some (Failed failed_to_fetch, w') \<and> length (tasks w') = 20" by blast
next
  let ?v = "session_start 5000"
  obtain v' where demo: "fetchTasksForToken 0 unreachable ''demo'' ?v = Some (DemoMode, v')"
    by (simp add: fetchTasksForToken_demo)
  from placeholder_size [where fuel = 0 and env = unreachable and accessToken = "''demo''"
      and w = ?v and p = DemoMode and w' = v' and e = failed_to_fetch,
      THEN conjunct2, THEN conjunct1]
  have "fetchTasksForToken 0 unreachable ''demo'' ?v = Some (DemoMode, v') \<longrightarrow>
      tasks v' = fst (generateMockTasks unreachable 15 (?v\<lparr>now := now v'\<rparr>))
      \<and> length (tasks v') = 15" .
  with demo have "length (tasks v') = 15" by blast
  with demo show "\<exists>w'. fetchTasksForToken 0 unreachable ''demo'' ?v = Some (DemoMode, w')
      \<and> length (tasks w') = 15" by blast
next
  let ?w = "running_session 1000000 [remote_task ''1'' ''A'' (Some 10)] 400000"
  obtain w' where run: "fetchAllHistoricalTasks (Suc 0) unreachable ?w
      = Some (Failed failed_to_fetch, w')"
    using history_fails by simp
  from placeholder_size [where fuel = "Suc 0" and env = unreachable and accessToken = "''1/1200''"
      and w = ?w and p = "Failed failed_to_fetch" and w' = w' and e = failed_to_fetch,
      THEN conjunct2, THEN conjunct2, THEN conjunct2]
  have "fetchAllHistoricalTasks (Suc 0) unreachable ?w = Some (Failed failed_to_fetch, w')
        \<and> (Failed failed_to_fetch = Failed failed_to_fetch
            \<or> Failed failed_to_fetch = TasksFailed failed_to_fetch
            \<or> Failed failed_to_fetch = NoWorkspaces) \<longrightarrow>
      tasks w' = tasks ?w" .
  with run have "tasks w' = tasks ?w" by blast
  with run show "\<exists>w'. fetchAllHistoricalTasks (Suc 0) unreachable ?w
        = Some (Failed failed_to_fetch, w')
      \<and> tasks w' = [remote_task ''1'' ''A'' (Some 10)]"
    by (simp add: example_eval)
qed

text \<open>
  C10, as the specification has it, fails for the request for the full history: with one
  task displayed and a network that cannot be reached, one task is displayed afterwards,
  not 20.
\<close>

theorem history_failure_shows_no_placeholders:
  "\<not> (\<forall>fuel env w e w'.
         token w \<noteq> Some ''demo''
         \<and> fetchAllHistoricalTasks fuel env w = Some (Failed e, w') \<longrightarrow>
         length (tasks w') = 20)"
proof
  assume claim: "\<forall>fuel env w e w'.
         token w \<noteq> Some ''demo''
         \<and> fetchAllHistoricalTasks fuel env w = Some (Failed e, w') \<longrightarrow>
         length (tasks w') = 20"
  let ?w = "running_session 1000000 [remote_task ''1'' ''A'' (Some 10)] 400000"
  let ?w' = "?w\<lparr>cached_tasks_item := None, last_sync_item := None,
          error := Some ''Failed to connect to Asana: TypeError: Failed to fetch'',
          now := 1000003, sent := [GetUser ''1/1200'']\<rparr>"
  have run: "fetchAllHistoricalTasks (Suc 0) unreachable ?w = Some (Failed failed_to_fetch, ?w')"
    by (rule history_fails)
  have "token ?w \<noteq> Some ''demo''" by (simp add: example_eval)
  with claim run have "length (tasks ?w') = 20" by blast
  then show False by (simp add: example_eval)
qed

end
